theory Spec2Isabelle
  imports Complex_Main
begin

unbundle bit_operations_syntax

section \<open>Quasi-Monte Carlo engines of \<^verbatim>\<open>scipy/stats/_qmc.py\<close>\<close>

text \<open>
  Conventions of the embedding.
  \<^item> A Python float is a \<^typ>\<open>real\<close>: arithmetic is exact, the rounding of binary64 is
    not modelled. The one place where the source relies on rounding (the loop guard of
    \<^verbatim>\<open>van_der_corput\<close>) is written out as the threshold it amounts to.
  \<^item> A raise is a value: every fallible function returns \<open>error + 'a\<close>, with \<open>Inl\<close>
    the exception.
  \<^item> A two-dimensional array is a record of its column count and its rows, so that an
    array with no row still has a shape \<open>(0, d)\<close>.
  \<^item> Mutation of an engine is explicit state passing: a method takes the engine and
    returns the engine after the call next to its result.
\<close>

subsection \<open>Errors and arrays\<close>

datatype error = ValueError | IndexError | ZeroDivisionError | AttributeError

record ndarray =
  ncols :: nat
  rows :: "real list list"

definition shape :: "ndarray \<Rightarrow> nat \<times> nat" where
  "shape a = (length (rows a), ncols a)"



text \<open>
  NumPy integer indexing of an axis of length \<open>n\<close>: an index in \<open>[-n, n)\<close> is taken
  modulo \<open>n\<close>, any other raises \<^verbatim>\<open>IndexError\<close>.
\<close>

definition np_index :: "nat \<Rightarrow> int \<Rightarrow> error + nat" where
  "np_index n i =
     (if 0 \<le> i \<and> i < int n then Inr (nat i)
      else if - int n \<le> i \<and> i < 0 then Inr (nat (i + int n))
      else Inl IndexError)"

text \<open>
  NumPy broadcasting of a vector of length \<open>k\<close> against rows of length \<open>d\<close>: equal
  lengths pair up, a length of one is stretched, anything else raises
  \<^verbatim>\<open>ValueError\<close>. \<open>bget x i\<close> is entry \<open>i\<close> of the stretched vector.
\<close>

definition np_broadcast :: "nat \<Rightarrow> nat \<Rightarrow> error + nat" where
  "np_broadcast k d =
     (if k = d then Inr d else if k = 1 then Inr d else if d = 1 then Inr k
      else Inl ValueError)"

definition bget :: "real list \<Rightarrow> nat \<Rightarrow> real" where
  "bget x i = (if length x = 1 then x ! 0 else x ! i)"

subsection \<open>Discrepancy\<close>

text \<open>
  \<^verbatim>\<open>discrepancy(sample, iterative=False, method='CD')\<close>. The entry \<open>[a, b]\<close> of
  \<^verbatim>\<open>prod_arr\<close> after the loop over the \<open>d\<close> columns is a product over the columns;
  \<^verbatim>\<open>prod_arr\<close> starts as the integer \<open>1\<close>, so with \<open>d = 0\<close> the call
  \<^verbatim>\<open>prod_arr.sum()\<close> raises \<^verbatim>\<open>AttributeError\<close>. The division by the Python
  integer \<open>n\<close> raises \<^verbatim>\<open>ZeroDivisionError\<close> when \<open>n = 0\<close>.
\<close>

definition prod_arr_CD :: "nat \<Rightarrow> real list \<Rightarrow> real list \<Rightarrow> real" where
  "prod_arr_CD d a b =
     prod_list (map (\<lambda>i. 1 + 0.5 * \<bar>a ! i - 0.5\<bar> + 0.5 * \<bar>b ! i - 0.5\<bar>
                            - 0.5 * \<bar>a ! i - b ! i\<bar>) [0..<d])"

definition prod_arr_WD :: "nat \<Rightarrow> real list \<Rightarrow> real list \<Rightarrow> real" where
  "prod_arr_WD d a b =
     prod_list (map (\<lambda>i. 3 / 2 - \<bar>a ! i - b ! i\<bar> + \<bar>a ! i - b ! i\<bar> ^ 2) [0..<d])"

definition prod_arr_MD :: "nat \<Rightarrow> real list \<Rightarrow> real list \<Rightarrow> real" where
  "prod_arr_MD d a b =
     prod_list (map (\<lambda>i. 15 / 8 - 0.25 * \<bar>a ! i - 0.5\<bar> - 0.25 * \<bar>b ! i - 0.5\<bar>
                            - 3 / 4 * \<bar>a ! i - b ! i\<bar> + 0.5 * \<bar>a ! i - b ! i\<bar> ^ 2) [0..<d])"

definition sum_pairs :: "(real list \<Rightarrow> real list \<Rightarrow> real) \<Rightarrow> real list list \<Rightarrow> real" where
  "sum_pairs f rs = sum_list (map (\<lambda>a. sum_list (map (\<lambda>b. f a b) rs)) rs)"

definition discrepancy :: "ndarray \<Rightarrow> bool \<Rightarrow> string \<Rightarrow> error + real" where
  "discrepancy sample iterative method =
     (let d = ncols sample;
          n0 = length (rows sample);
          n = (if iterative then n0 + 1 else n0)
      in
      if method = ''CD'' then
        (let disc1 = sum_list (map (\<lambda>r. prod_list (map (\<lambda>v. 1 + 0.5 * \<bar>v - 0.5\<bar>
                                                   - 0.5 * \<bar>v - 0.5\<bar> ^ 2) r)) (rows sample))
         in if d = 0 then Inl AttributeError
            else let disc2 = sum_pairs (prod_arr_CD d) (rows sample)
            in if n = 0 then Inl ZeroDivisionError
               else Inr ((13 / 12) ^ d - 2 / real n * disc1 + 1 / (real n ^ 2) * disc2))
      else if method = ''WD'' then
        (if n = 0 then Inl ZeroDivisionError
         else if d = 0 then Inl AttributeError
         else Inr (- ((4 / 3) ^ d) + 1 / (real n ^ 2) * sum_pairs (prod_arr_WD d) (rows sample)))
      else if method = ''MD'' then
        (let disc1 = sum_list (map (\<lambda>r. prod_list (map (\<lambda>v. 5 / 3 - 0.25 * \<bar>v - 0.5\<bar>
                                                   - 0.25 * \<bar>v - 0.5\<bar> ^ 2) r)) (rows sample))
         in if d = 0 then Inl AttributeError
            else let disc2 = sum_pairs (prod_arr_MD d) (rows sample);
                     disc = (19 / 12) ^ d
            in if n = 0 then Inl ZeroDivisionError
               else Inr (disc - 2 / real n * disc1 + 1 / (real n ^ 2) * disc2))
      else if method = ''star'' then
        (if n = 0 then Inl ZeroDivisionError
         else if iterative then Inl IndexError
         else Inr (sqrt
           (1 / 3 ^ d - 2 / 2 ^ d / real n
              * sum_list (map (\<lambda>r. prod_list (map (\<lambda>v. 1 - v ^ 2) r)) (rows sample))
            + sum_pairs (\<lambda>a b. prod_list (map (\<lambda>i. 1 - max (a ! i) (b ! i)) [0..<d]))
                (rows sample) / real n ^ 2)))
      else Inl ValueError)"


text \<open>
  \<^verbatim>\<open>_perturb_discrepancy(sample, i1, i2, k, disc)\<close>. Each local quantity of the
  source is a function of the centred sample \<open>z_ij\<close> and of the rows and the column it is
  taken at; an array over the rows (\<^verbatim>\<open>c_i1j\<close>, \<^verbatim>\<open>gamma\<close>, ...) is given by its
  entry at row \<open>j\<close>. The row indices \<open>i1\<close>, \<open>i2\<close> and the column index \<open>k\<close> are NumPy
  indices. The quotients \<^verbatim>\<open>alpha\<close>, \<^verbatim>\<open>beta\<close> and \<^verbatim>\<open>gamma\<close> have non-zero
  denominators for a sample of the unit cube (an entry of \<open>z_ij\<close> is then at most \<open>1/2\<close>
  in absolute value).
\<close>

text \<open>Eq (19): entry \<open>j\<close> of \<^verbatim>\<open>c_i1j\<close> (with \<open>r = i1\<close>) and of \<^verbatim>\<open>c_i2j\<close> (with \<open>r = i2\<close>).\<close>

definition c_ij :: "nat \<Rightarrow> nat \<Rightarrow> real list list \<Rightarrow> nat \<Rightarrow> nat \<Rightarrow> real" where
  "c_ij n d z_ij r j =
     1 / real n ^ 2 * prod_list (map (\<lambda>i.
        0.5 * (2 + \<bar>z_ij ! r ! i\<bar> + \<bar>z_ij ! j ! i\<bar> - \<bar>z_ij ! r ! i - z_ij ! j ! i\<bar>)) [0..<d])"

text \<open>\<^verbatim>\<open>g_i1\<close>, \<^verbatim>\<open>g_i2\<close> and \<^verbatim>\<open>h_i1\<close>, \<^verbatim>\<open>h_i2\<close>: products over a row.\<close>

definition g_i :: "real list list \<Rightarrow> nat \<Rightarrow> real" where
  "g_i z_ij r = prod_list (map (\<lambda>v. 1 + \<bar>v\<bar>) (z_ij ! r))"

definition h_i :: "real list list \<Rightarrow> nat \<Rightarrow> real" where
  "h_i z_ij r = prod_list (map (\<lambda>v. 1 + 0.5 * \<bar>v\<bar> - 0.5 * v ^ 2) (z_ij ! r))"

text \<open>Eq (20): \<^verbatim>\<open>c_i1i1\<close> and \<^verbatim>\<open>c_i2i2\<close>.\<close>

definition c_ii :: "nat \<Rightarrow> real list list \<Rightarrow> nat \<Rightarrow> real" where
  "c_ii n z_ij r =
     1 / real n ^ 2 * prod_list (map (\<lambda>v. 1 + \<bar>v\<bar>) (z_ij ! r))
       - 2 / real n * prod_list (map (\<lambda>v. 1 + 0.5 * \<bar>v\<bar> - 0.5 * v ^ 2) (z_ij ! r))"

text \<open>Eq (22): entry \<open>j\<close> of \<^verbatim>\<open>gamma = num / denum\<close>.\<close>

definition gamma :: "real list list \<Rightarrow> nat \<Rightarrow> nat \<Rightarrow> nat \<Rightarrow> nat \<Rightarrow> real" where
  "gamma z_ij r1 r2 kc j =
     (let num = 2 + \<bar>z_ij ! r2 ! kc\<bar> + \<bar>z_ij ! j ! kc\<bar> - \<bar>z_ij ! r2 ! kc - z_ij ! j ! kc\<bar>;
          denum = 2 + \<bar>z_ij ! r1 ! kc\<bar> + \<bar>z_ij ! j ! kc\<bar> - \<bar>z_ij ! r1 ! kc - z_ij ! j ! kc\<bar>
      in num / denum)"

definition alpha :: "real list list \<Rightarrow> nat \<Rightarrow> nat \<Rightarrow> nat \<Rightarrow> real" where
  "alpha z_ij r1 r2 kc = (1 + \<bar>z_ij ! r2 ! kc\<bar>) / (1 + \<bar>z_ij ! r1 ! kc\<bar>)"

definition beta :: "real list list \<Rightarrow> nat \<Rightarrow> nat \<Rightarrow> nat \<Rightarrow> real" where
  "beta z_ij r1 r2 kc = (2 - \<bar>z_ij ! r2 ! kc\<bar>) / (2 - \<bar>z_ij ! r1 ! kc\<bar>)"

definition perturb_discrepancy :: "ndarray \<Rightarrow> int \<Rightarrow> int \<Rightarrow> int \<Rightarrow> real \<Rightarrow> error + real" where
  "perturb_discrepancy sample i1 i2 k disc =
     (let n = length (rows sample);
          d = ncols sample;
          z_ij = map (map (\<lambda>v. v - 0.5)) (rows sample)
      in case np_index n i1 of Inl e \<Rightarrow> Inl e | Inr r1 \<Rightarrow>
         case np_index n i2 of Inl e \<Rightarrow> Inl e | Inr r2 \<Rightarrow>
         case np_index d k of Inl e \<Rightarrow> Inl e | Inr kc \<Rightarrow>
         let c_i1i1 = c_ii n z_ij r1;
             c_i2i2 = c_ii n z_ij r2;
             \<comment> \<open>Eq (23) and Eq (24)\<close>
             c_p_i1j = (\<lambda>j. gamma z_ij r1 r2 kc j * c_ij n d z_ij r1 j);
             c_p_i2j = (\<lambda>j. c_ij n d z_ij r2 j / gamma z_ij r1 r2 kc j);
             al = alpha z_ij r1 r2 kc;
             be = beta z_ij r1 r2 kc;
             \<comment> \<open>Eq (25) and Eq (26)\<close>
             c_p_i1i1 = (g_i z_ij r1 * al) / (real n ^ 2) - 2 * al * be * h_i z_ij r1 / real n;
             c_p_i2i2 = (g_i z_ij r2 / ((real n ^ 2) * al)) - (2 * h_i z_ij r2 / (real n * al * be));
             sum_j = (\<lambda>j. c_p_i1j j - c_ij n d z_ij r1 j + c_p_i2j j - c_ij n d z_ij r2 j);
             mask = (replicate n True)[r1 := False, r2 := False];
             sum_masked = sum_list (map sum_j (filter (\<lambda>j. mask ! j) [0..<n]));
             disc_ep = disc + c_p_i1i1 - c_i1i1 + c_p_i2i2 - c_i2i2 + 2 * sum_masked
         in Inr disc_ep)"

subsection \<open>The random generator and seeds\<close>

text \<open>
  NumPy's generator is not part of the repository. It is modelled by the stream of raw
  words it is going to produce (\<open>tape\<close>) and the number of words already consumed
  (\<open>pos\<close>); a draw of \<open>k\<close> values reads the next \<open>k\<close> words and moves \<open>pos\<close> by \<open>k\<close>.
  What the embedding relies on is what NumPy documents: a uniform float lies in
  \<open>[0, 1)\<close>; \<^verbatim>\<open>randint(low, high, size)\<close> and \<^verbatim>\<open>integers(low, high, size)\<close> draw from
  the half-open range \<open>[low, high)\<close> and raise \<^verbatim>\<open>ValueError\<close> when the range is empty
  and the size is not; \<^verbatim>\<open>permutation\<close> and \<^verbatim>\<open>shuffle\<close> reorder, here by the
  Fisher-Yates exchange.
\<close>

record generator =
  tape :: "nat \<Rightarrow> nat"
  pos :: nat

definition raw_words :: "generator \<Rightarrow> nat \<Rightarrow> nat list" where
  "raw_words g k = map (\<lambda>i. tape g (pos g + i)) [0..<k]"

definition advance :: "generator \<Rightarrow> nat \<Rightarrow> generator" where
  "advance g k = g\<lparr>pos := pos g + k\<rparr>"

definition random_sample :: "generator \<Rightarrow> nat \<Rightarrow> real list \<times> generator" where
  "random_sample g k = (map (\<lambda>w. real (w mod 2 ^ 53) / 2 ^ 53) (raw_words g k), advance g k)"

definition integers :: "generator \<Rightarrow> int \<Rightarrow> int \<Rightarrow> nat \<Rightarrow> (error + int list) \<times> generator" where
  "integers g low high k =
     (if k = 0 then (Inr [], g)
      else if high \<le> low then (Inl ValueError, g)
      else (Inr (map (\<lambda>w. low + int w mod (high - low)) (raw_words g k)), advance g k))"

definition uniform :: "generator \<Rightarrow> real \<Rightarrow> real \<Rightarrow> nat \<Rightarrow> real list \<times> generator" where
  "uniform g low high k =
     (let (u, g') = random_sample g k in (map (\<lambda>v. low + (high - low) * v) u, g'))"

definition swap_entries :: "'a list \<Rightarrow> nat \<Rightarrow> nat \<Rightarrow> 'a list" where
  "swap_entries xs i j = xs[i := xs ! j, j := xs ! i]"

text \<open>The exchanges for the positions \<open>i, i - 1, \<dots>, 1\<close>, each with a position below or at it.\<close>

fun shuffle_from :: "nat \<Rightarrow> generator \<Rightarrow> 'a list \<Rightarrow> 'a list \<times> generator" where
  "shuffle_from 0 g xs = (xs, g)"
| "shuffle_from (Suc i) g xs =
     shuffle_from i (advance g 1) (swap_entries xs (Suc i) (tape g (pos g) mod (Suc (Suc i))))"

definition shuffle :: "generator \<Rightarrow> 'a list \<Rightarrow> 'a list \<times> generator" where
  "shuffle g xs = shuffle_from (length xs - 1) g xs"

definition permutation :: "generator \<Rightarrow> nat \<Rightarrow> nat list \<times> generator" where
  "permutation g k = shuffle g [0..<k]"

text \<open>
  A seed is \<^verbatim>\<open>None\<close>, an integer or a generator; any other value is excluded by the
  type (the source raises \<^verbatim>\<open>ValueError\<close> for it). \<^verbatim>\<open>np.random.default_rng\<close> is the
  parameter \<open>default_rng\<close>: the generator it builds from an integer seed, and, for
  \<^verbatim>\<open>None\<close>, the generator it builds from the entropy of the system at that call.
\<close>

datatype py_seed = SeedNone | SeedInt int | SeedGenerator generator

definition check_random_state :: "(int option \<Rightarrow> generator) \<Rightarrow> py_seed \<Rightarrow> generator" where
  "check_random_state default_rng sd =
     (case sd of
        SeedNone \<Rightarrow> default_rng None
      | SeedInt s \<Rightarrow> default_rng (Some s)
      | SeedGenerator g \<Rightarrow> g)"

text \<open>\<open>n * d\<close> values in row-major order as \<open>n\<close> rows of \<open>d\<close> entries.\<close>

definition reshape :: "nat \<Rightarrow> nat \<Rightarrow> 'a list \<Rightarrow> 'a list list" where
  "reshape n k xs = map (\<lambda>i. take k (drop (i * k) xs)) [0..<n]"

text \<open>The transpose of a list of \<open>k\<close> columns of \<open>n\<close> entries: \<open>n\<close> rows of \<open>k\<close> entries.\<close>

definition columns_to_rows :: "nat \<Rightarrow> 'a list list \<Rightarrow> 'a list list" where
  "columns_to_rows n cols = map (\<lambda>i. map (\<lambda>c. c ! i) cols) [0..<n]"

subsection \<open>The engine base class\<close>

text \<open>
  \<^verbatim>\<open>QMCEngine\<close>: the attribute \<^verbatim>\<open>d\<close> is the field \<open>dim\<close>. A subclass is a record
  extension, and the methods of the base class work on every extension.
\<close>

record QMCEngine =
  dim :: nat
  rng :: generator
  rng_seed :: py_seed
  num_generated :: nat

definition QMCEngine_init :: "(int option \<Rightarrow> generator) \<Rightarrow> nat \<Rightarrow> py_seed \<Rightarrow> QMCEngine" where
  "QMCEngine_init default_rng dm sd =
     \<lparr>dim = dm, rng = check_random_state default_rng sd, rng_seed = sd, num_generated = 0\<rparr>"

definition QMCEngine_fast_forward :: "'a QMCEngine_scheme \<Rightarrow> nat \<Rightarrow> 'a QMCEngine_scheme" where
  "QMCEngine_fast_forward E n = E\<lparr>num_generated := num_generated E + n\<rparr>"

subsection \<open>The Sobol' engine\<close>

definition MAXBIT :: nat where
  "MAXBIT = 30"

text \<open>
  The class \<^verbatim>\<open>Sobol\<close>. The matrix of direction numbers \<^verbatim>\<open>_sv\<close> is filled by
  \<^verbatim>\<open>initialize_v\<close> and \<^verbatim>\<open>_cscramble\<close> of \<^verbatim>\<open>scipy/stats/_sobol.pyx\<close>, which is not
  among the sources: it is a parameter of the engine, \<open>sv E j c\<close> being the direction
  integer of dimension \<open>j\<close> and bit \<open>c\<close>.
\<close>

record Sobol = QMCEngine +
  sv :: "nat \<Rightarrow> nat \<Rightarrow> nat"
  shift :: "nat list"
  quasi :: "nat list"
  first_point :: "real list"

text \<open>
  Modelled from the spec: \<^verbatim>\<open>_draw\<close> and \<^verbatim>\<open>_fast_forward\<close> of
  \<^verbatim>\<open>scipy/stats/_sobol.pyx\<close> are not among the sources. The spec: ``for
  \<open>i = num_generated .. num_generated + n - 1\<close>, let \<open>c\<close> = position of the lowest unset
  bit in \<open>i\<close> (0-indexed); update \<open>quasi[j] ^= V[j][c]\<close> for every dimension \<open>j\<close>, and emit
  point \<open>(quasi[0], \<dots>, quasi[d-1]) / 2^B\<close>''; and ``advancing by \<open>n\<close> is equivalent to \<open>n\<close>
  consecutive Gray-code XORs applied without emission''. A count below one gives no
  pass of the loop.
\<close>

function low_0_bit :: "nat \<Rightarrow> nat" where
  "low_0_bit i = (if even i then 0 else Suc (low_0_bit (i div 2)))"
  by pat_completeness auto
termination
  by (relation "measure (\<lambda>i. i)") (auto elim: oddE)

declare low_0_bit.simps [simp del]

definition gray_step :: "nat \<Rightarrow> (nat \<Rightarrow> nat \<Rightarrow> nat) \<Rightarrow> nat \<Rightarrow> nat list \<Rightarrow> nat list" where
  "gray_step dm v i q = map (\<lambda>j. (q ! j) XOR v j (low_0_bit i)) [0..<dm]"

fun draw_loop ::
  "nat \<Rightarrow> nat \<Rightarrow> nat \<Rightarrow> (nat \<Rightarrow> nat \<Rightarrow> nat) \<Rightarrow> nat list \<Rightarrow> real list list \<times> nat list" where
  "draw_loop 0 num_gen dm v q = ([], q)"
| "draw_loop (Suc n) num_gen dm v q =
     (let q' = gray_step dm v num_gen q;
          (pts, q'') = draw_loop n (Suc num_gen) dm v q'
      in (map (\<lambda>x. real x / 2 ^ MAXBIT) q' # pts, q''))"

definition draw ::
  "int \<Rightarrow> nat \<Rightarrow> nat \<Rightarrow> (nat \<Rightarrow> nat \<Rightarrow> nat) \<Rightarrow> nat list \<Rightarrow> real list list \<times> nat list" where
  "draw n num_gen dm v q = draw_loop (nat n) num_gen dm v q"

fun fast_forward_loop ::
  "nat \<Rightarrow> nat \<Rightarrow> nat \<Rightarrow> (nat \<Rightarrow> nat \<Rightarrow> nat) \<Rightarrow> nat list \<Rightarrow> nat list" where
  "fast_forward_loop 0 num_gen dm v q = q"
| "fast_forward_loop (Suc n) num_gen dm v q =
     fast_forward_loop n (Suc num_gen) dm v (gray_step dm v num_gen q)"

definition fast_forward ::
  "int \<Rightarrow> nat \<Rightarrow> nat \<Rightarrow> (nat \<Rightarrow> nat \<Rightarrow> nat) \<Rightarrow> nat list \<Rightarrow> nat list" where
  "fast_forward n num_gen dm v q = fast_forward_loop (nat n) num_gen dm v q"

text \<open>
  \<^verbatim>\<open>Sobol.random(n)\<close>. The warning for an \<open>n\<close> that is not a power of two is not an
  error and has no effect on the result. At the start of the sequence the first point
  is the cached one and \<open>n - 1\<close> points are drawn behind it; the slice \<^verbatim>\<open>[:n]\<close> drops
  the last, unfilled, row of the buffer.
\<close>

definition Sobol_random :: "Sobol \<Rightarrow> nat \<Rightarrow> real list list \<times> Sobol" where
  "Sobol_random E n =
     (if num_generated E = 0 then
        (if n = 1 then ([first_point E], E\<lparr>num_generated := num_generated E + n\<rparr>)
         else let (pts, q) = draw (int n - 1) (num_generated E) (dim E) (sv E) (quasi E)
              in (take n (first_point E # pts),
                  E\<lparr>num_generated := num_generated E + n, quasi := q\<rparr>))
      else let (pts, q) = draw (int n) (num_generated E - 1) (dim E) (sv E) (quasi E)
           in (pts, E\<lparr>num_generated := num_generated E + n, quasi := q\<rparr>))"

text \<open>\<^verbatim>\<open>Sobol.random_base2(m)\<close>: the check of the total is made before anything is drawn.\<close>

definition Sobol_random_base2 :: "Sobol \<Rightarrow> nat \<Rightarrow> (error + real list list) \<times> Sobol" where
  "Sobol_random_base2 E m =
     (let n = 2 ^ m;
          total_n = num_generated E + n
      in if \<not> (total_n AND (total_n - 1) = 0) then (Inl ValueError, E)
         else let (sample, E') = Sobol_random E n in (Inr sample, E'))"

definition Sobol_reset :: "Sobol \<Rightarrow> Sobol" where
  "Sobol_reset E = E\<lparr>quasi := shift E, num_generated := 0\<rparr>"

definition Sobol_fast_forward :: "Sobol \<Rightarrow> nat \<Rightarrow> Sobol" where
  "Sobol_fast_forward E n =
     (if num_generated E = 0 then
        E\<lparr>quasi := fast_forward (int n - 1) (num_generated E) (dim E) (sv E) (quasi E),
          num_generated := num_generated E + n\<rparr>
      else
        E\<lparr>quasi := fast_forward (int n) (num_generated E - 1) (dim E) (sv E) (quasi E),
          num_generated := num_generated E + n\<rparr>)"

subsection \<open>Latin hypercube sampling\<close>

record LatinHypercube = QMCEngine +
  centered :: bool

definition LatinHypercube_init ::
  "(int option \<Rightarrow> generator) \<Rightarrow> nat \<Rightarrow> bool \<Rightarrow> py_seed \<Rightarrow> LatinHypercube" where
  "LatinHypercube_init default_rng dm c sd =
     QMCEngine.extend (QMCEngine_init default_rng dm sd) \<lparr>centered = c\<rparr>"

text \<open>
  \<^verbatim>\<open>LatinHypercube.random(n)\<close>. The call returns its result or its exception next to the
  engine as the call leaves it: the offsets \<open>r\<close> are drawn before the integers \<open>q\<close>, so
  the generator has moved when the draw of \<open>q\<close> raises; the cursor is moved after both
  draws, and the division by \<open>n\<close> comes last.
\<close>

definition LatinHypercube_random ::
  "LatinHypercube \<Rightarrow> nat \<Rightarrow> (error + ndarray) \<times> LatinHypercube" where
  "LatinHypercube_random E n =
     (let (r, g1) = (if centered E then (replicate (n * dim E) 0.5, rng E)
                     else random_sample (rng E) (n * dim E))
      in case integers g1 1 (int n) (n * dim E) of
           (Inl e, g2) \<Rightarrow> (Inl e, E\<lparr>rng := g2\<rparr>)
         | (Inr q, g2) \<Rightarrow>
             let E' = E\<lparr>rng := g2, num_generated := num_generated E + n\<rparr>
             in if n = 0 then (Inl ZeroDivisionError, E')
                else (Inr \<lparr>ncols = dim E,
                           rows = reshape n (dim E)
                                    (map2 (\<lambda>qv rv. 1 / real n * (real_of_int qv - rv)) q r)\<rparr>, E'))"

definition LatinHypercube_reset ::
  "(int option \<Rightarrow> generator) \<Rightarrow> LatinHypercube \<Rightarrow> LatinHypercube" where
  "LatinHypercube_reset default_rng E =
     (LatinHypercube_init default_rng (dim E) (centered E) (rng_seed E))\<lparr>num_generated := 0\<rparr>"

subsection \<open>The van der Corput sequence\<close>

text \<open>
  \<^verbatim>\<open>quotient % base\<close> on floats: the remainder has the sign of the divisor, so for a
  positive base it lies in \<open>[0, base)\<close>.
\<close>

definition py_mod :: "real \<Rightarrow> int \<Rightarrow> real" where
  "py_mod q b = q - real_of_int b * real_of_int \<lfloor>q / real_of_int b\<rfloor>"

text \<open>
  The loop of \<^verbatim>\<open>van_der_corput\<close>. Its guard \<^verbatim>\<open>(1 - b2r) < 1\<close> is a test in
  binary64: \<open>1 - b2r\<close> rounds to \<open>1\<close> (ties to even) exactly when \<open>b2r \<le> 2^-54\<close>, so the
  guard holds exactly when \<open>2^-54 < b2r\<close>; \<open>b2r\<close> itself is the exact power of
  \<open>1 / base\<close>. With \<open>base = 1\<close> the value \<open>b2r\<close> stays \<open>1\<close> and the loop of the source never
  ends: the loop below is entered for \<open>base \<ge> 2\<close> only, and \<^verbatim>\<open>van_der_corput\<close> returns
  \<open>None\<close> for \<open>base = 1\<close>. A negative base gives a negative \<open>b2r\<close> and no pass.

  One pass handles one digit position of all the points: the remainders of all the
  quotients, then, when scrambling, one permutation drawn from the generator and applied
  to the remainder of every point (\<^verbatim>\<open>astype(int)\<close> truncates the remainder, which is in
  \<open>[0, base)\<close>), then the update of the sequence and of the quotients. The quotient is
  divided as a float: after a scrambled digit it need not be an integer.
\<close>

lemma vdc_pass_decreases:
  assumes "2 \<le> b" and "1 / 2 ^ 54 < b2r"
  shows "nat \<lceil>b2r / real_of_int b * 2 ^ 54\<rceil> < nat \<lceil>b2r * 2 ^ 54\<rceil>"
proof -
  define x where "x = b2r * 2 ^ 54"
  have x1: "1 < x" using assms(2) by (simp add: x_def field_simps)
  then have c2: "2 \<le> \<lceil>x\<rceil>" by linarith
  have b2: "2 \<le> real_of_int b" using assms(1) by simp
  have "x / real_of_int b \<le> x / 2"
    using x1 b2 by (intro divide_left_mono) simp_all
  also have "\<dots> \<le> real_of_int \<lceil>x\<rceil> / 2"
    using le_of_int_ceiling[of x] by (simp add: divide_right_mono)
  also have "\<dots> \<le> real_of_int (\<lceil>x\<rceil> - 1)" using c2 by simp
  finally have "x / real_of_int b \<le> real_of_int (\<lceil>x\<rceil> - 1)" .
  then have "\<lceil>x / real_of_int b\<rceil> \<le> \<lceil>x\<rceil> - 1" by (rule ceiling_le)
  then have lt: "nat \<lceil>x / real_of_int b\<rceil> < nat \<lceil>x\<rceil>" using c2 by linarith
  have e1: "b2r / real_of_int b * 2 ^ 54 = x / real_of_int b" unfolding x_def by simp
  show ?thesis unfolding e1 unfolding x_def[symmetric] by (rule lt)
qed

function vdc_loop ::
  "int \<Rightarrow> bool \<Rightarrow> generator \<Rightarrow> real list \<Rightarrow> real list \<Rightarrow> real \<Rightarrow> real list \<times> generator" where
  "vdc_loop b scr g sequence quotients b2r =
     (if 2 \<le> b \<and> 1 / 2 ^ 54 < b2r then
        (let remainder = map (\<lambda>q. py_mod q b) quotients;
             perm = fst (permutation g (nat b));
             remainder' = (if scr then map (\<lambda>r. real (perm ! nat \<lfloor>r\<rfloor>)) remainder
                           else remainder);
             g' = (if scr then snd (permutation g (nat b)) else g);
             sequence' = map2 (\<lambda>s r. s + r * b2r) sequence remainder';
             quotients' = map2 (\<lambda>q r. (q - r) / real_of_int b) quotients remainder'
         in vdc_loop b scr g' sequence' quotients' (b2r / real_of_int b))
      else (sequence, g))"
  by pat_completeness auto
termination
  by (relation "measure (\<lambda>(b, scr, g, sequence, quotients, b2r). nat \<lceil>b2r * 2 ^ 54\<rceil>)")
     (auto simp only: wf_measure in_measure prod.case intro: vdc_pass_decreases)

text \<open>
  The permutations that a scrambled call draws, one for each pass of the loop, in the
  order of the passes, and the generator after the last; and the digits of one point
  under a given list of permutations, the permutation of a pass applied to the digit of
  that pass.
\<close>

function drawn_perms :: "int \<Rightarrow> generator \<Rightarrow> real \<Rightarrow> nat list list \<times> generator" where
  "drawn_perms b g b2r =
     (if 2 \<le> b \<and> 1 / 2 ^ 54 < b2r then
        (let rest = drawn_perms b (snd (permutation g (nat b))) (b2r / real_of_int b)
         in (fst (permutation g (nat b)) # fst rest, snd rest))
      else ([], g))"
  by pat_completeness auto
termination
  by (relation "measure (\<lambda>(b, g, b2r). nat \<lceil>b2r * 2 ^ 54\<rceil>)")
     (auto simp only: wf_measure in_measure prod.case intro: vdc_pass_decreases)

declare vdc_loop.simps [simp del] drawn_perms.simps [simp del]

fun point_digits :: "int \<Rightarrow> nat list list \<Rightarrow> real \<Rightarrow> real \<Rightarrow> real \<Rightarrow> real" where
  "point_digits b [] s q b2r = s"
| "point_digits b (perm # perms) s q b2r =
     (let r = real (perm ! nat \<lfloor>py_mod q b\<rfloor>)
      in point_digits b perms (s + r * b2r) ((q - r) / real_of_int b) (b2r / real_of_int b))"

text \<open>
  \<^verbatim>\<open>van_der_corput(n, base=2, start_index=0, scramble=False, seed=None)\<close>: the sequence
  and the generator as the call leaves it, \<^verbatim>\<open>ZeroDivisionError\<close> for \<open>base = 0\<close>
  (\<^verbatim>\<open>1 / base\<close>), \<open>None\<close> when the call does not return.
\<close>

definition van_der_corput ::
  "(int option \<Rightarrow> generator) \<Rightarrow> nat \<Rightarrow> int \<Rightarrow> int \<Rightarrow> bool \<Rightarrow> py_seed
     \<Rightarrow> (error + real list \<times> generator) option" where
  "van_der_corput default_rng n b start_index scr sd =
     (let g = check_random_state default_rng sd;
          sequence = replicate n 0;
          quotients = map (\<lambda>i. real_of_int (start_index + int i)) [0..<n]
      in if b = 0 then Some (Inl ZeroDivisionError)
         else if b = 1 then None
         else Some (Inr (vdc_loop b scr g sequence quotients (1 / real_of_int b))))"

subsection \<open>The Halton engine\<close>

text \<open>
  The class \<^verbatim>\<open>Halton\<close>; its attribute \<^verbatim>\<open>seed\<close> is the field \<open>seed_arg\<close>. The
  constructor fills \<open>base\<close> with the first \<open>d\<close> primes; the properties below hold for
  every list of bases.
\<close>

record Halton = QMCEngine +
  seed_arg :: py_seed
  base :: "int list"
  scramble :: bool

text \<open>
  The list comprehension of \<^verbatim>\<open>Halton.random\<close> evaluates the columns in order: the
  first call that does not return, or raises, ends it.
\<close>

fun collect_columns ::
  "(error + real list \<times> generator) option list \<Rightarrow> (error + real list list) option" where
  "collect_columns [] = Some (Inr [])"
| "collect_columns (None # rest) = None"
| "collect_columns (Some (Inl e) # rest) = Some (Inl e)"
| "collect_columns (Some (Inr (c, g)) # rest) =
     (case collect_columns rest of
        None \<Rightarrow> None
      | Some (Inl e) \<Rightarrow> Some (Inl e)
      | Some (Inr cs) \<Rightarrow> Some (Inr (c # cs)))"

text \<open>
  \<^verbatim>\<open>Halton.random(n)\<close>: every column is computed from a copy of the seed, so the
  generator of the engine does not move. The final \<^verbatim>\<open>reshape(n, self.d)\<close> raises when
  the number of columns is not \<open>d\<close> (and \<open>n\<close> is not zero), after the cursor has moved.
\<close>

definition Halton_random ::
  "(int option \<Rightarrow> generator) \<Rightarrow> Halton \<Rightarrow> nat \<Rightarrow> ((error + ndarray) \<times> Halton) option" where
  "Halton_random default_rng E n =
     (case collect_columns
             (map (\<lambda>bdim. van_der_corput default_rng n bdim (int (num_generated E))
                             (scramble E) (seed_arg E)) (base E)) of
        None \<Rightarrow> None
      | Some (Inl e) \<Rightarrow> Some (Inl e, E)
      | Some (Inr cols) \<Rightarrow>
          (let E' = E\<lparr>num_generated := num_generated E + n\<rparr>
           in if n * length cols \<noteq> n * dim E then Some (Inl ValueError, E')
              else Some (Inr \<lparr>ncols = dim E,
                              rows = reshape n (dim E) (concat (columns_to_rows n cols))\<rparr>, E')))"

subsection \<open>Orthogonal-array Latin hypercube sampling\<close>

text \<open>The class \<^verbatim>\<open>OrthogonalLatinHypercube\<close> adds no attribute to the base class.\<close>

type_synonym OrthogonalLatinHypercube = QMCEngine

definition OrthogonalLatinHypercube_init ::
  "(int option \<Rightarrow> generator) \<Rightarrow> nat \<Rightarrow> py_seed \<Rightarrow> OrthogonalLatinHypercube" where
  "OrthogonalLatinHypercube_init default_rng dm sd = QMCEngine_init default_rng dm sd"

text \<open>The loop over the \<open>d\<close> columns: a stratified column, then its shuffle.\<close>

fun olhs_columns :: "nat \<Rightarrow> nat \<Rightarrow> real \<Rightarrow> generator \<Rightarrow> real list list \<times> generator" where
  "olhs_columns 0 n step g = ([], g)"
| "olhs_columns (Suc k) n step g =
     (let j = map (\<lambda>i. real i * step) [0..<n];
          (u, g1) = uniform g 0 step n;
          (temp, g2) = shuffle g1 (map2 (\<lambda>a c. a + c) j u);
          (cols, g3) = olhs_columns k n step g2
      in (temp # cols, g3))"

text \<open>\<^verbatim>\<open>OrthogonalLatinHypercube.random(n)\<close>; \<^verbatim>\<open>step = 1.0 / n\<close> raises for \<open>n = 0\<close>.\<close>

definition OrthogonalLatinHypercube_random ::
  "OrthogonalLatinHypercube \<Rightarrow> nat \<Rightarrow> (error + ndarray) \<times> OrthogonalLatinHypercube" where
  "OrthogonalLatinHypercube_random E n =
     (if n = 0 then (Inl ZeroDivisionError, E)
      else let step = 1 / real n;
               (cols, g) = olhs_columns (dim E) n step (rng E)
           in (Inr \<lparr>ncols = dim E, rows = reshape n (dim E) (concat (columns_to_rows n cols))\<rparr>,
               E\<lparr>rng := g, num_generated := num_generated E + n\<rparr>))"

text \<open>
  The value of one point of a van der Corput sequence: the loop run on the point alone.
  It serves to state that the loop treats the points independently of each other.
\<close>

definition vdc_point :: "int \<Rightarrow> bool \<Rightarrow> generator \<Rightarrow> int \<Rightarrow> real" where
  "vdc_point b scr g x = hd (fst (vdc_loop b scr g [0] [real_of_int x] (1 / real_of_int b)))"

subsection \<open>The optimal design\<close>

text \<open>
  The optimizer \<^verbatim>\<open>method(func, x0, bounds)\<close> is a callable from outside the class (by
  default \<^verbatim>\<open>scipy.optimize.basinhopping\<close>, which is not among the sources). All it does
  to the engine is to call the objective \<open>func\<close> at points of its choice, each choice
  depending on the values returned so far, and to draw from the generator of the engine.
  A run of an optimizer that returns is therefore a well-founded tree: it is finished,
  leaving the generator in some state, or it evaluates the objective at a point and goes
  on according to the value. A value of the objective is a float or \<^verbatim>\<open>np.inf\<close>
  (\<open>None\<close>).
\<close>

datatype optimizer_run =
  Finished generator
| Evaluate "real list" "real option \<Rightarrow> optimizer_run"

type_synonym optimizer = "real list \<Rightarrow> (int \<times> int) list \<Rightarrow> generator \<Rightarrow> optimizer_run"

text \<open>
  The class \<^verbatim>\<open>OptimalDesign\<close>; its attribute \<^verbatim>\<open>method\<close> is the field
  \<open>opt_method\<close>. \<open>best_disc\<close> is a float or \<^verbatim>\<open>np.inf\<close> (\<open>None\<close>). The
  engine \<^verbatim>\<open>olhs\<close> is built on the generator object of the design itself: its own field
  \<open>rng\<close> is not read, the generator of the design is passed to it at each use.
\<close>

record OptimalDesign = QMCEngine +
  start_design :: "ndarray option"
  niter :: nat
  opt_method :: optimizer
  best_doe :: "ndarray option"
  best_disc :: "real option"
  olhs :: OrthogonalLatinHypercube

text \<open>
  \<^verbatim>\<open>OptimalDesign.__init__(d, start_design=None, niter=1, method=None, seed=None)\<close>;
  \<open>basinhopping\<close> is the default optimizer, taken when \<open>method\<close> is \<^verbatim>\<open>None\<close>. The
  discrepancy of a start design may raise.
\<close>

definition OptimalDesign_init ::
  "(int option \<Rightarrow> generator) \<Rightarrow> optimizer \<Rightarrow> nat \<Rightarrow> ndarray option \<Rightarrow> nat \<Rightarrow> optimizer option
     \<Rightarrow> py_seed \<Rightarrow> error + OptimalDesign" where
  "OptimalDesign_init default_rng basinhopping dm start nit meth sd =
     (let B = QMCEngine_init default_rng dm sd;
          m = (case meth of None \<Rightarrow> basinhopping | Some f \<Rightarrow> f)
      in case (case start of
                 None \<Rightarrow> Inr None
               | Some s \<Rightarrow> (case discrepancy s False ''CD'' of
                              Inl e \<Rightarrow> Inl e | Inr c \<Rightarrow> Inr (Some c))) of
           Inl e \<Rightarrow> Inl e
         | Inr bd \<Rightarrow>
             Inr (QMCEngine.extend B
                    \<lparr>start_design = start, niter = nit, opt_method = m, best_doe = start,
                     best_disc = bd,
                     olhs = OrthogonalLatinHypercube_init default_rng dm
                              (SeedGenerator (rng B))\<rparr>))"

text \<open>\<^verbatim>\<open>np.round\<close> rounds a half to the even neighbour.\<close>

definition np_round :: "real \<Rightarrow> int" where
  "np_round x =
     (if x - real_of_int \<lfloor>x\<rfloor> = 1 / 2 then (if even \<lfloor>x\<rfloor> then \<lfloor>x\<rfloor> else \<lfloor>x\<rfloor> + 1)
      else \<lfloor>x + 1 / 2\<rfloor>)"

text \<open>
  The exchange \<^verbatim>\<open>doe[row_1, col], doe[row_2, col] = doe[row_2, col], doe[row_1, col]\<close>:
  both cells are read, then the first is written, then the second.
\<close>

definition swap_cells :: "ndarray \<Rightarrow> int \<Rightarrow> int \<Rightarrow> int \<Rightarrow> ndarray" where
  "swap_cells doe row_1 row_2 col =
     (case (np_index (length (rows doe)) row_1, np_index (length (rows doe)) row_2,
            np_index (ncols doe) col) of
        (Inr r1, Inr r2, Inr kc) \<Rightarrow>
          (let a = rows doe ! r2 ! kc;
               b = rows doe ! r1 ! kc;
               rows1 = (rows doe)[r1 := (rows doe ! r1)[kc := a]];
               rows2 = rows1[r2 := (rows1 ! r2)[kc := b]]
           in doe\<lparr>rows := rows2\<rparr>)
      | _ \<Rightarrow> doe)"

text \<open>
  The objective \<^verbatim>\<open>_perturb_best_doe(x)\<close>: the value it returns or the exception it
  raises, and the design after the call. With \<open>best_disc\<close> infinite the candidate is
  infinite as well and nothing is committed.
\<close>

definition perturb_best_doe ::
  "OptimalDesign \<Rightarrow> real list \<Rightarrow> (error + real option) \<times> OptimalDesign" where
  "perturb_best_doe E x =
     (case best_doe E of
        None \<Rightarrow> (Inl AttributeError, E)
      | Some doe \<Rightarrow>
          (case map np_round x of
             [col, row_1, row_2] \<Rightarrow>
               (case perturb_discrepancy doe row_1 row_2 col
                       (case best_disc E of None \<Rightarrow> 0 | Some b \<Rightarrow> b) of
                  Inl e \<Rightarrow> (Inl e, E)
                | Inr disc \<Rightarrow>
                    (case best_disc E of
                       None \<Rightarrow> (Inr None, E)
                     | Some b \<Rightarrow>
                         if disc < b
                         then (Inr (Some disc),
                               E\<lparr>best_disc := Some disc,
                                 best_doe := Some (swap_cells doe row_1 row_2 col)\<rparr>)
                         else (Inr (Some disc), E)))
           | _ \<Rightarrow> (Inl ValueError, E)))"

text \<open>
  One call of the optimizer: the objective is evaluated along the run; an exception of
  the objective ends the call.
\<close>

primrec run_method :: "optimizer_run \<Rightarrow> OptimalDesign \<Rightarrow> error option \<times> OptimalDesign" where
  "run_method (Finished g) E = (None, E\<lparr>rng := g\<rparr>)"
| "run_method (Evaluate x k) E =
     (case perturb_best_doe E x of
        (Inl e, E') \<Rightarrow> (Some e, E')
      | (Inr v, E') \<Rightarrow> run_method (k v) E')"

text \<open>The loop \<^verbatim>\<open>for _ in range(self.niter): self.method(_perturb_best_doe, x0, bounds)\<close>.\<close>

fun optimize ::
  "nat \<Rightarrow> real list \<Rightarrow> (int \<times> int) list \<Rightarrow> OptimalDesign \<Rightarrow> error option \<times> OptimalDesign" where
  "optimize 0 x0 bounds E = (None, E)"
| "optimize (Suc k) x0 bounds E =
     (case run_method (opt_method E x0 bounds (rng E)) E of
        (Some e, E') \<Rightarrow> (Some e, E')
      | (None, E') \<Rightarrow> optimize k x0 bounds E')"

text \<open>The initial design: the one in place, or a draw of \<^verbatim>\<open>olhs\<close> and its discrepancy.\<close>

definition initial_design :: "OptimalDesign \<Rightarrow> nat \<Rightarrow> error option \<times> OptimalDesign" where
  "initial_design E n =
     (case best_doe E of
        Some doe \<Rightarrow> (None, E)
      | None \<Rightarrow>
          (case OrthogonalLatinHypercube_random ((olhs E)\<lparr>rng := rng E\<rparr>) n of
             (Inl e, O') \<Rightarrow> (Some e, E\<lparr>rng := rng O', olhs := O'\<rparr>)
           | (Inr doe, O') \<Rightarrow>
               (let E1 = E\<lparr>rng := rng O', olhs := O', best_doe := Some doe\<rparr>
                in case discrepancy doe False ''CD'' of
                     Inl e \<Rightarrow> (Some e, E1)
                   | Inr c \<Rightarrow> (None, E1\<lparr>best_disc := Some c\<rparr>))))"

text \<open>
  \<^verbatim>\<open>OptimalDesign.random(n)\<close>. With \<open>d = 0\<close> the call returns an empty block at once,
  before the cursor is touched. The result is \<^verbatim>\<open>self.best_doe\<close>.
\<close>

definition OptimalDesign_random ::
  "OptimalDesign \<Rightarrow> nat \<Rightarrow> (error + ndarray option) \<times> OptimalDesign" where
  "OptimalDesign_random E n =
     (if dim E = 0 then (Inr (Some \<lparr>ncols = 0, rows = replicate n []\<rparr>), E)
      else case initial_design E n of
             (Some e, E1) \<Rightarrow> (Inl e, E1)
           | (None, E1) \<Rightarrow>
               (let x0 = [0, 0, 0];
                    bounds = [(0, int (dim E1) - 1), (0, int n - 1), (0, int n - 1)]
                in case optimize (niter E1) x0 bounds E1 of
                     (Some e, E2) \<Rightarrow> (Inl e, E2)
                   | (None, E2) \<Rightarrow>
                       (let E3 = E2\<lparr>num_generated := num_generated E2 + n\<rparr>
                        in (Inr (best_doe E3), E3))))"

text \<open>
  \<^verbatim>\<open>OptimalDesign.reset()\<close>: \<^verbatim>\<open>self.__init__(d=self.d, seed=self.rng_seed)\<close>, the other
  arguments of the constructor at their defaults.
\<close>

definition OptimalDesign_reset ::
  "(int option \<Rightarrow> generator) \<Rightarrow> optimizer \<Rightarrow> OptimalDesign \<Rightarrow> error + OptimalDesign" where
  "OptimalDesign_reset default_rng basinhopping E =
     (case OptimalDesign_init default_rng basinhopping (dim E) None 1 None (rng_seed E) of
        Inl e \<Rightarrow> Inl e
      | Inr E' \<Rightarrow> Inr (E'\<lparr>num_generated := 0\<rparr>))"

text \<open>
  The order of discrepancies with \<^verbatim>\<open>np.inf\<close> (\<open>None\<close>) on top, to state that
  \<open>best_disc\<close> does not increase.
\<close>

definition disc_le :: "real option \<Rightarrow> real option \<Rightarrow> bool" where
  "disc_le x y =
     (case y of
        None \<Rightarrow> True
      | Some b \<Rightarrow> (case x of None \<Rightarrow> False | Some a \<Rightarrow> a \<le> b))"

subsection \<open>The multivariate normal sampler\<close>

text \<open>
  The class \<^verbatim>\<open>MultivariateNormalQMC\<close>, as its constructor leaves it (the constructor
  itself, with its Cholesky and eigenvalue decompositions, is not modelled); the
  attributes \<^verbatim>\<open>engine\<close>, \<^verbatim>\<open>_mean\<close>, \<^verbatim>\<open>_corr_matrix\<close> and \<^verbatim>\<open>_inv_transform\<close> are the
  fields \<open>mvn_engine\<close>, \<open>mean\<close>, \<open>corr_matrix\<close> and \<open>inv_transform\<close>.

  The base engine is any object with a method \<^verbatim>\<open>random\<close>: an engine of this module, a
  sampler built on one, or a subclass of the user. Its state is a value of any type
  \<open>'e\<close>, and its method is the parameter \<open>engine_random\<close> of the functions below:
  \<open>engine_random e n\<close> is the call \<^verbatim>\<open>engine.random(n)\<close> in the state \<open>e\<close>, that is \<open>None\<close>
  when the call does not return, and otherwise the block of points or the exception,
  with the state of the base engine after the call.
\<close>

record 'e MultivariateNormalQMC = QMCEngine +
  inv_transform :: bool
  mvn_engine :: 'e
  mean :: "real list"
  corr_matrix :: "ndarray option"

text \<open>
  \<^verbatim>\<open>base_samples @ self._corr_matrix\<close> raises when the inner dimensions differ, and the
  sum with the mean is a broadcast.
\<close>

definition matmul :: "ndarray \<Rightarrow> ndarray \<Rightarrow> error + ndarray" where
  "matmul a m =
     (if ncols a \<noteq> length (rows m) then Inl ValueError
      else Inr \<lparr>ncols = ncols m,
                rows = map (\<lambda>r. map (\<lambda>j. sum_list (map (\<lambda>i. r ! i * (rows m ! i ! j))
                                                       [0..<ncols a])) [0..<ncols m])
                         (rows a)\<rparr>)"

definition add_vector :: "ndarray \<Rightarrow> real list \<Rightarrow> error + ndarray" where
  "add_vector a v =
     (case np_broadcast (length v) (ncols a) of
        Inl e \<Rightarrow> Inl e
      | Inr w \<Rightarrow> Inr \<lparr>ncols = w,
                       rows = map (\<lambda>r. map (\<lambda>i. bget r i + bget v i) [0..<w]) (rows a)\<rparr>)"

definition correlate :: "'e MultivariateNormalQMC \<Rightarrow> ndarray \<Rightarrow> error + ndarray" where
  "correlate E base_samples =
     (case corr_matrix E of
        Some c \<Rightarrow> (case matmul base_samples c of
                     Inl e \<Rightarrow> Inl e
                   | Inr p \<Rightarrow> add_vector p (mean E))
      | None \<Rightarrow> add_vector base_samples (mean E))"

text \<open>
  The transform of a block of uniform samples to standard normal samples. The inverse
  normal distribution function \<^verbatim>\<open>norm.ppf\<close> is the parameter \<open>ppf\<close>. The Box-Muller
  branch reads the columns \<open>0, 2, 4, \<dots>\<close> and their right neighbours (an odd number of
  columns raises \<^verbatim>\<open>IndexError\<close>), interleaves \<open>R cos \<theta>\<close> and \<open>R sin \<theta>\<close>, reshapes the
  result to \<open>n\<close> rows (\<^verbatim>\<open>reshape(n, -1)\<close> raises when \<open>n\<close> is zero or does not divide the
  size) and keeps the first \<open>d\<close> columns. The logarithm is the real one: the \<open>-inf\<close> that
  NumPy returns at zero, and the \<open>nan\<close> that follows from it, have no counterpart here.
\<close>

definition normal_transform ::
  "(real \<Rightarrow> real) \<Rightarrow> 'e MultivariateNormalQMC \<Rightarrow> nat \<Rightarrow> ndarray \<Rightarrow> error + ndarray" where
  "normal_transform ppf E n samples =
     (if inv_transform E then
        Inr \<lparr>ncols = ncols samples,
             rows = map (map (\<lambda>v. ppf (0.5 + (1 - 1 / 10 ^ 10) * (v - 0.5)))) (rows samples)\<rparr>
      else
        (let even = filter (\<lambda>i. even i) [0..<ncols samples];
             stacked = concat (map (\<lambda>r. concat (map (\<lambda>i.
                          [sqrt (- 2 * ln (r ! i)) * cos (2 * pi * r ! (1 + i)),
                           sqrt (- 2 * ln (r ! i)) * sin (2 * pi * r ! (1 + i))]) even))
                        (rows samples))
         in if odd (ncols samples) then Inl IndexError
            else if n = 0 \<or> length stacked mod n \<noteq> 0 then Inl ValueError
            else Inr \<lparr>ncols = min (dim E) (length stacked div n),
                      rows = map (take (dim E)) (reshape n (length stacked div n) stacked)\<rparr>))"

text \<open>
  \<^verbatim>\<open>MultivariateNormalQMC.random(n)\<close>: the draw moves the base engine; the fields of
  the sampler itself, its cursor among them, are not assigned.
\<close>

definition MultivariateNormalQMC_random ::
  "(real \<Rightarrow> real) \<Rightarrow> ('e \<Rightarrow> nat \<Rightarrow> ((error + ndarray) \<times> 'e) option)
     \<Rightarrow> 'e MultivariateNormalQMC \<Rightarrow> nat \<Rightarrow> ((error + ndarray) \<times> 'e MultivariateNormalQMC) option" where
  "MultivariateNormalQMC_random ppf engine_random E n =
     (case engine_random (mvn_engine E) n of
        None \<Rightarrow> None
      | Some (Inl e, eng) \<Rightarrow> Some (Inl e, E\<lparr>mvn_engine := eng\<rparr>)
      | Some (Inr samples, eng) \<Rightarrow>
          (case normal_transform ppf E n samples of
             Inl e \<Rightarrow> Some (Inl e, E\<lparr>mvn_engine := eng\<rparr>)
           | Inr base_samples \<Rightarrow> Some (correlate E base_samples, E\<lparr>mvn_engine := eng\<rparr>)))"

text \<open>The call \<^verbatim>\<open>engine.random(n)\<close> when the base engine is a Sobol' engine.\<close>

definition Sobol_engine_random :: "Sobol \<Rightarrow> nat \<Rightarrow> ((error + ndarray) \<times> Sobol) option" where
  "Sobol_engine_random S n =
     Some (Inr \<lparr>ncols = dim S, rows = fst (Sobol_random S n)\<rparr>, snd (Sobol_random S n))"

subsection \<open>Concrete inputs\<close>




definition sv_two :: "nat \<Rightarrow> nat \<Rightarrow> nat" where
  "sv_two j c = (if j = 0 then 2 ^ (29 - c) else (if c = 0 then 1 else 3) * 2 ^ (29 - c))"

definition tape_id :: generator where
  "tape_id = \<lparr>tape = (\<lambda>i. i), pos = 0\<rparr>"

definition sobol_two :: Sobol where
  "sobol_two = \<lparr>dim = 2, rng = tape_id, rng_seed = SeedNone, num_generated = 0,
                 sv = sv_two, shift = [0, 0], quasi = [0, 0], first_point = [0, 0]\<rparr>"

definition lhs_one :: LatinHypercube where
  "lhs_one = LatinHypercube_init (\<lambda>_. tape_id) 1 False (SeedInt 0)"

definition lhs_centered :: LatinHypercube where
  "lhs_centered = LatinHypercube_init (\<lambda>_. tape_id) 1 True (SeedInt 0)"

definition halton_two :: Halton where
  "halton_two = \<lparr>dim = 2, rng = tape_id, rng_seed = SeedNone, num_generated = 0,
                  seed_arg = SeedNone, base = [2, 3], scramble = False\<rparr>"

definition opt_once :: optimizer where
  "opt_once x0 bounds g = Evaluate [0, 0, 1] (\<lambda>v. Finished g)"

definition design_pair :: ndarray where
  "design_pair = \<lparr>ncols = 1, rows = [[1 / 4], [3 / 4]]\<rparr>"

definition drawn_pair :: ndarray where
  "drawn_pair = \<lparr>ncols = 1, rows = [[1 / 2 + 1 / 2 ^ 54], [0]]\<rparr>"

definition drawn_pair_swapped :: ndarray where
  "drawn_pair_swapped = \<lparr>ncols = 1, rows = [[0], [1 / 2 + 1 / 2 ^ 54]]\<rparr>"

definition mvn_two :: "Sobol MultivariateNormalQMC" where
  "mvn_two = QMCEngine.extend (QMCEngine_init (\<lambda>u. tape_id) 2 SeedNone)
               \<lparr>inv_transform = True, mvn_engine = sobol_two, mean = [0, 0],
                corr_matrix = None\<rparr>"

section \<open>Properties\<close>

subsection \<open>Sums over pairs of rows\<close>










subsection \<open>C1: the incremental update of the centered discrepancy\<close>




subsection \<open>C9: the elementary-swap update is symmetric in the two rows\<close>










subsection \<open>C7: \<^verbatim>\<open>random_base2\<close> and the powers of two\<close>

lemma pow2_and_pred:
  fixes t :: nat
  assumes "1 \<le> t"
  shows "(t AND (t - 1) = 0) \<longleftrightarrow> (\<exists>k. t = 2 ^ k)"
  using assms
proof (induction t rule: less_induct)
  case (less t)
  show ?case
  proof (cases "even t")
    case True
    then obtain q where q: "t = 2 * q" by (auto elim: evenE)
    with less.prems have q1: "1 \<le> q" by simp
    have pred: "(t - 1) div 2 = q - 1" using q q1 by simp
    have oddp: "odd (t - 1)" using q q1 by simp
    have "t AND (t - 1) = 2 * (q AND (q - 1))"
      using True pred q by (subst and_nat_rec) simp
    then have "(t AND (t - 1) = 0) \<longleftrightarrow> (q AND (q - 1) = 0)" by simp
    also have "\<dots> \<longleftrightarrow> (\<exists>k. q = 2 ^ k)"
      using less.IH[of q] q q1 by simp
    also have "\<dots> \<longleftrightarrow> (\<exists>k. t = 2 ^ k)"
    proof
      assume "\<exists>k. q = 2 ^ k"
      then obtain k where "q = 2 ^ k" ..
      then have "t = 2 ^ Suc k" using q by simp
      then show "\<exists>k. t = 2 ^ k" ..
    next
      assume "\<exists>k. t = 2 ^ k"
      then obtain k where k: "t = 2 ^ k" ..
      with True have "k \<noteq> 0" by (cases k) auto
      then obtain k' where "k = Suc k'" by (cases k) auto
      with k q have "q = 2 ^ k'" by simp
      then show "\<exists>k. q = 2 ^ k" ..
    qed
    finally show ?thesis .
  next
    case False
    then obtain q where q: "t = 2 * q + 1" by (auto elim: oddE)
    have "t AND (t - 1) = 2 * q"
      using q by (subst and_nat_rec) simp
    then have l: "(t AND (t - 1) = 0) \<longleftrightarrow> q = 0" by simp
    have r: "(\<exists>k. t = 2 ^ k) \<longleftrightarrow> q = 0"
    proof
      assume "\<exists>k. t = 2 ^ k"
      then obtain k where k: "t = 2 ^ k" ..
      with False have "k = 0" by (cases k) auto
      with k q show "q = 0" by simp
    next
      assume "q = 0"
      then have "t = 2 ^ 0" using q by simp
      then show "\<exists>k. t = 2 ^ k" ..
    qed
    from l r show ?thesis by simp
  qed
qed


lemma length_draw_loop: "length (fst (draw_loop n g dm v q)) = n"
proof (induction n arbitrary: g q)
  case 0
  show ?case by simp
next
  case (Suc n)
  obtain pts q' where r: "draw_loop n (Suc g) dm v (gray_step dm v g q) = (pts, q')"
    by (cases "draw_loop n (Suc g) dm v (gray_step dm v g q)")
  from Suc[of "Suc g" "gray_step dm v g q"] r have "length pts = n" by simp
  with r show ?case by (simp add: Let_def)
qed

lemma length_Sobol_random: "length (fst (Sobol_random E n)) = n"
proof (cases "num_generated E = 0")
  case True
  show ?thesis
  proof (cases "n = 1")
    case True
    with \<open>num_generated E = 0\<close> show ?thesis by (simp add: Sobol_random_def)
  next
    case False
    have "length (fst (draw_loop (n - 1) 0 (dim E) (sv E) (quasi E))) = n - 1"
      by (rule length_draw_loop)
    moreover have "nat (int n - 1) = n - 1" by simp
    ultimately show ?thesis
      using False \<open>num_generated E = 0\<close>
      by (auto simp: Sobol_random_def draw_def split: prod.splits)
  qed
next
  case False
  have "length (fst (draw_loop n (num_generated E - 1) (dim E) (sv E) (quasi E))) = n"
    by (rule length_draw_loop)
  then show ?thesis
    using False by (auto simp: Sobol_random_def draw_def split: prod.splits)
qed

text \<open>
  C7: \<^verbatim>\<open>random_base2(m)\<close> raises, and raises \<^verbatim>\<open>ValueError\<close>, exactly when
  \<open>num_generated + 2^m\<close> is not a power of two; when it is one, the call returns \<open>2^m\<close>
  points and moves the cursor by \<open>2^m\<close>.
\<close>

theorem Sobol_random_base2_raises_iff:
  "(fst (Sobol_random_base2 E m) = Inl ValueError
      \<longleftrightarrow> \<not> (\<exists>k. num_generated E + 2 ^ m = 2 ^ k))
   \<and> ((\<exists>e. fst (Sobol_random_base2 E m) = Inl e)
      \<longleftrightarrow> \<not> (\<exists>k. num_generated E + 2 ^ m = 2 ^ k))
   \<and> ((\<exists>k. num_generated E + 2 ^ m = 2 ^ k)
      \<longrightarrow> (\<exists>pts. fst (Sobol_random_base2 E m) = Inr pts \<and> length pts = 2 ^ m
               \<and> num_generated (snd (Sobol_random_base2 E m)) = num_generated E + 2 ^ m))"
proof -
  let ?t = "num_generated E + 2 ^ m"
  have "(0::nat) < 2 ^ m" by simp
  then have t1: "1 \<le> ?t" by linarith
  have bit: "(?t AND (?t - 1) = 0) \<longleftrightarrow> (\<exists>k. ?t = 2 ^ k)"
    by (rule pow2_and_pred[OF t1])
  show ?thesis
  proof (cases "\<exists>k. ?t = 2 ^ k")
    case True
    then have z: "?t AND (?t - 1) = 0" using bit by simp
    have "fst (Sobol_random_base2 E m) = Inr (fst (Sobol_random E (2 ^ m)))"
      using z by (simp add: Sobol_random_base2_def Let_def split: prod.splits)
    moreover have "num_generated (snd (Sobol_random_base2 E m)) = num_generated E + 2 ^ m"
      using z by (auto simp: Sobol_random_base2_def Sobol_random_def Let_def split: prod.splits)
    ultimately show ?thesis using True length_Sobol_random[of E "2 ^ m"] by simp
  next
    case False
    then have z: "?t AND (?t - 1) \<noteq> 0" using bit by simp
    have "fst (Sobol_random_base2 E m) = Inl ValueError"
      using z by (simp add: Sobol_random_base2_def Let_def)
    then show ?thesis using False by simp
  qed
qed

theorem Sobol_random_base2_raises_iff_witness:
  "num_generated sobol_two + 2 ^ 1 = 2 ^ 1
   \<and> fst (Sobol_random_base2 sobol_two 1) = Inr [[0, 0], [1 / 2, 1 / 2]]
   \<and> num_generated (snd (Sobol_random_base2 sobol_two 1)) = 2
   \<and> fst (Sobol_random_base2 (snd (Sobol_random_base2 sobol_two 1)) 0) = Inl ValueError"
proof -
  have a: "num_generated sobol_two + 2 ^ 1 = 2 ^ 1" by (simp add: sobol_two_def)
  have lb: "low_0_bit 0 = 0" by (simp add: low_0_bit.simps)
  have b: "Sobol_random sobol_two 2 = ([[0, 0], [1 / 2, 1 / 2]],
             sobol_two\<lparr>num_generated := 2, quasi := [2 ^ 29, 2 ^ 29]\<rparr>)"
    by (simp add: Sobol_random_def sobol_two_def draw_def gray_step_def sv_two_def MAXBIT_def
          numeral_2_eq_2 upt_rec lb)
  have c: "fst (Sobol_random_base2 sobol_two 1) = Inr [[0, 0], [1 / 2, 1 / 2]]"
    using b by (simp add: Sobol_random_base2_def Let_def sobol_two_def)
  have "\<exists>k. num_generated sobol_two + 2 ^ 1 = 2 ^ k"
    using a by (intro exI[of _ 1])
  with Sobol_random_base2_raises_iff[of sobol_two 1]
  have d: "num_generated (snd (Sobol_random_base2 sobol_two 1)) = 2"
    by (auto simp: sobol_two_def)
  have "\<not> (\<exists>k. (3::nat) = 2 ^ k)"
  proof
    assume "\<exists>k. (3::nat) = 2 ^ k"
    then obtain k where k: "(3::nat) = 2 ^ k" ..
    then have "odd ((2::nat) ^ k)" by (metis odd_numeral)
    then have "k = 0" by (cases k) auto
    with k show False by simp
  qed
  then have e: "fst (Sobol_random_base2 (snd (Sobol_random_base2 sobol_two 1)) 0) = Inl ValueError"
    using Sobol_random_base2_raises_iff[of "snd (Sobol_random_base2 sobol_two 1)" 0] d by simp
  from a c d e show ?thesis by blast
qed

subsection \<open>C10: \<^verbatim>\<open>LatinHypercube.random(1)\<close> raises\<close>

lemma LatinHypercube_random_one:
  assumes "1 \<le> dim E"
  shows "LatinHypercube_random E 1
           = (Inl ValueError, E\<lparr>rng := (if centered E then rng E else advance (rng E) (dim E))\<rparr>)"
  using assms by (simp add: LatinHypercube_random_def integers_def random_sample_def)

text \<open>
  C10 as stated fails in its last part. The call raises, but it does not leave the engine
  as it was: with \<open>centered = False\<close> (the default) the offsets are drawn before the
  integers, so the generator of the engine has moved by \<open>d\<close> values when the exception
  leaves the call, and the draws that follow differ from those of an untouched engine.
\<close>

theorem LatinHypercube_random_one_state_counterexample:
  "fst (LatinHypercube_random lhs_one 1) = Inl ValueError
   \<and> pos (rng lhs_one) = 0
   \<and> pos (rng (snd (LatinHypercube_random lhs_one 1))) = 1
   \<and> snd (LatinHypercube_random lhs_one 1) \<noteq> lhs_one"
proof -
  have d: "1 \<le> dim lhs_one" "\<not> centered lhs_one" "pos (rng lhs_one) = 0"
    by (simp_all add: lhs_one_def LatinHypercube_init_def QMCEngine_init_def
          QMCEngine.extend_def check_random_state_def tape_id_def)
  have p: "pos (rng (snd (LatinHypercube_random lhs_one 1))) = 1"
    using d LatinHypercube_random_one[OF d(1)]
    by (simp add: advance_def lhs_one_def LatinHypercube_init_def QMCEngine_init_def
          QMCEngine.extend_def)
  then have "snd (LatinHypercube_random lhs_one 1) \<noteq> lhs_one" using d(3) by auto
  with d p LatinHypercube_random_one[OF d(1)] show ?thesis by simp
qed

text \<open>
  C10, amended: for every engine of dimension \<open>d \<ge> 1\<close>, \<^verbatim>\<open>random(1)\<close> raises
  \<^verbatim>\<open>ValueError\<close> (the integers are asked from the empty range \<open>[1, 1)\<close>); the cursor,
  the dimension, the flag and the stored seed are unchanged; the generator is unchanged
  when the engine is centered, and has moved by \<open>d\<close> values otherwise.
\<close>

theorem LatinHypercube_random_one_raises:
  assumes "1 \<le> dim E"
  shows "fst (LatinHypercube_random E 1) = Inl ValueError
       \<and> num_generated (snd (LatinHypercube_random E 1)) = num_generated E
       \<and> dim (snd (LatinHypercube_random E 1)) = dim E
       \<and> centered (snd (LatinHypercube_random E 1)) = centered E
       \<and> rng_seed (snd (LatinHypercube_random E 1)) = rng_seed E
       \<and> rng (snd (LatinHypercube_random E 1))
           = (if centered E then rng E else advance (rng E) (dim E))
       \<and> (if centered E then snd (LatinHypercube_random E 1) = E
           else pos (rng (snd (LatinHypercube_random E 1))) = pos (rng E) + dim E)"
  using LatinHypercube_random_one[OF assms] by (simp add: advance_def)

theorem LatinHypercube_random_one_raises_witness:
  "1 \<le> dim lhs_centered
   \<and> fst (LatinHypercube_random lhs_centered 1) = Inl ValueError
   \<and> snd (LatinHypercube_random lhs_centered 1) = lhs_centered
   \<and> 1 \<le> dim lhs_one
   \<and> fst (LatinHypercube_random lhs_one 1) = Inl ValueError
   \<and> num_generated (snd (LatinHypercube_random lhs_one 1)) = 0
   \<and> rng (snd (LatinHypercube_random lhs_one 1)) = advance (rng lhs_one) 1"
proof -
  have c: "1 \<le> dim lhs_centered" "centered lhs_centered"
    by (simp_all add: lhs_centered_def LatinHypercube_init_def QMCEngine_init_def QMCEngine.extend_def)
  have d: "1 \<le> dim lhs_one" "\<not> centered lhs_one" "dim lhs_one = 1" "num_generated lhs_one = 0"
    by (simp_all add: lhs_one_def LatinHypercube_init_def QMCEngine_init_def QMCEngine.extend_def)
  from LatinHypercube_random_one_raises[OF c(1)] LatinHypercube_random_one_raises[OF d(1)] c d
  show ?thesis by simp
qed

subsection \<open>C4: the strata of \<^verbatim>\<open>LatinHypercube.random\<close>\<close>

text \<open>
  C4 at a failing input. The integers \<open>q\<close> come from \<^verbatim>\<open>rg_integers(low=1, high=n)\<close>,
  whose upper bound is exclusive: \<open>q\<close> ranges over \<open>{1, \<dots>, n - 1}\<close>, never over \<open>n\<close>. With
  \<open>n = 2\<close> every \<open>q\<close> is \<open>1\<close>: whatever the generator, a centered engine of dimension one
  returns the point \<open>1/4\<close> twice, and the stratum \<open>[1/2, 1)\<close> stays empty.
\<close>

theorem LatinHypercube_random_two_same_stratum:
  assumes "dim E = 1" and "centered E"
  shows "fst (LatinHypercube_random E 2) = Inr \<lparr>ncols = 1, rows = [[1 / 4], [1 / 4]]\<rparr>"
  using assms
  by (simp add: LatinHypercube_random_def integers_def raw_words_def reshape_def
        numeral_2_eq_2 upt_rec)

theorem LatinHypercube_random_two_same_stratum_witness:
  "dim lhs_centered = 1 \<and> centered lhs_centered
   \<and> fst (LatinHypercube_random lhs_centered 2) = Inr \<lparr>ncols = 1, rows = [[1 / 4], [1 / 4]]\<rparr>"
proof -
  have c: "dim lhs_centered = 1" "centered lhs_centered"
    by (simp_all add: lhs_centered_def LatinHypercube_init_def QMCEngine_init_def QMCEngine.extend_def)
  from LatinHypercube_random_two_same_stratum[OF c] c show ?thesis by simp
qed

subsection \<open>C3: the permutations of a scrambled van der Corput sequence\<close>

lemma swap_entries_props:
  assumes "i < length xs" "j < length xs"
  shows "set (swap_entries xs i j) = set xs" "distinct (swap_entries xs i j) = distinct xs"
    "length (swap_entries xs i j) = length xs"
  using assms by (simp_all add: swap_entries_def set_swap distinct_swap)

lemma shuffle_from_props:
  assumes "i < length xs \<or> i = 0"
  shows "set (fst (shuffle_from i g xs)) = set xs
       \<and> distinct (fst (shuffle_from i g xs)) = distinct xs
       \<and> length (fst (shuffle_from i g xs)) = length xs
       \<and> snd (shuffle_from i g xs) = advance g i"
  using assms
proof (induction i arbitrary: g xs)
  case 0
  show ?case by (simp add: advance_def)
next
  case (Suc i)
  let ?j = "tape g (pos g) mod Suc (Suc i)"
  let ?ys = "swap_entries xs (Suc i) ?j"
  from Suc.prems have l: "Suc i < length xs" by simp
  have j: "?j < length xs" using l by (meson less_trans_Suc mod_less_divisor not_less_eq zero_less_Suc less_Suc_eq_le le_less_trans)
  have ys: "set ?ys = set xs" "distinct ?ys = distinct xs" "length ?ys = length xs"
    using swap_entries_props[OF l j] by simp_all
  have "i < length ?ys \<or> i = 0" using l ys(3) by simp
  from Suc.IH[OF this, of "advance g 1"] ys show ?case
    by (simp add: advance_def)
qed

lemma permutation_props:
  "set (fst (permutation g k)) = {0..<k}" "distinct (fst (permutation g k))"
  "length (fst (permutation g k)) = k" "snd (permutation g k) = advance g (k - 1)"
proof -
  have "length [0..<k] - 1 < length [0..<k] \<or> length [0..<k] - 1 = 0" by (cases k) auto
  from shuffle_from_props[OF this, of g]
  show "set (fst (permutation g k)) = {0..<k}" "distinct (fst (permutation g k))"
    "length (fst (permutation g k)) = k" "snd (permutation g k) = advance g (k - 1)"
    by (simp_all add: permutation_def shuffle_def)
qed

lemma drawn_perms_are_permutations:
  "p \<in> set (fst (drawn_perms b g b2r)) \<Longrightarrow> distinct p \<and> set p = {0..<nat b}"
proof (induction b g b2r rule: drawn_perms.induct)
  case (1 b g b2r)
  show ?case
  proof (cases "2 \<le> b \<and> 1 / 2 ^ 54 < b2r")
    case True
    from "1.prems" True
    have "p = fst (permutation g (nat b))
          \<or> p \<in> set (fst (drawn_perms b (snd (permutation g (nat b))) (b2r / real_of_int b)))"
      by (subst (asm) drawn_perms.simps) (simp add: Let_def)
    then show ?thesis
      using "1.IH"[OF True] by (auto simp: permutation_props)
  next
    case False
    with "1.prems" show ?thesis by (subst (asm) drawn_perms.simps) auto
  qed
qed

lemma map2_nth_eq:
  assumes "length xs = length ys" "length zs = length xs"
    "\<And>i. i < length xs \<Longrightarrow> f (xs ! i) (ys ! i) = zs ! i"
  shows "map2 f xs ys = zs"
  using assms by (intro nth_equalityI) simp_all

lemma vdc_loop_pointwise:
  assumes "length sequence = length quotients"
  shows "vdc_loop b True g sequence quotients b2r
           = (map2 (\<lambda>s q. point_digits b (fst (drawn_perms b g b2r)) s q b2r) sequence quotients,
              snd (drawn_perms b g b2r))"
  using assms
proof (induction b "True" g sequence quotients b2r rule: vdc_loop.induct)
  case (1 b g sequence quotients b2r)
  show ?case
  proof (cases "2 \<le> b \<and> 1 / 2 ^ 54 < b2r")
    case False
    then have d: "drawn_perms b g b2r = ([], g)" by (subst drawn_perms.simps) auto
    have "map2 (\<lambda>s q. s) sequence quotients = sequence"
      using "1.prems" by (intro nth_equalityI) simp_all
    with False d show ?thesis by (subst vdc_loop.simps) auto
  next
    case True
    define perm where "perm = fst (permutation g (nat b))"
    define g' where "g' = snd (permutation g (nat b))"
    define remainder' where
      "remainder' = map (\<lambda>r. real (perm ! nat \<lfloor>r\<rfloor>)) (map (\<lambda>q. py_mod q b) quotients)"
    define sequence' where "sequence' = map2 (\<lambda>s r. s + r * b2r) sequence remainder'"
    define quotients' where
      "quotients' = map2 (\<lambda>q r. (q - r) / real_of_int b) quotients remainder'"
    have len: "length sequence' = length quotients'"
      using "1.prems" by (simp add: sequence'_def quotients'_def remainder'_def)
    have step: "vdc_loop b True g sequence quotients b2r
                  = vdc_loop b True g' sequence' quotients' (b2r / real_of_int b)"
      using True
      by (subst vdc_loop.simps)
         (simp add: Let_def perm_def g'_def remainder'_def sequence'_def quotients'_def)
    have ih: "vdc_loop b True g' sequence' quotients' (b2r / real_of_int b)
           = (map2 (\<lambda>s q. point_digits b (fst (drawn_perms b g' (b2r / real_of_int b))) s q
                               (b2r / real_of_int b)) sequence' quotients',
              snd (drawn_perms b g' (b2r / real_of_int b)))"
      using "1.hyps"[OF True refl refl refl refl refl refl] len
      unfolding perm_def g'_def remainder'_def sequence'_def quotients'_def
      by simp
    have d: "drawn_perms b g b2r
               = (perm # fst (drawn_perms b g' (b2r / real_of_int b)),
                  snd (drawn_perms b g' (b2r / real_of_int b)))"
      using True by (subst drawn_perms.simps) (simp add: Let_def perm_def g'_def)
    have "map2 (\<lambda>s q. point_digits b (fst (drawn_perms b g' (b2r / real_of_int b))) s q
                               (b2r / real_of_int b)) sequence' quotients'
          = map2 (\<lambda>s q. point_digits b (perm # fst (drawn_perms b g' (b2r / real_of_int b))) s q b2r)
              sequence quotients"
      using "1.prems"
      by (intro nth_equalityI)
         (simp_all add: sequence'_def quotients'_def remainder'_def Let_def)
    with step ih d show ?thesis by simp
  qed
qed

text \<open>
  C3, amended: for every scrambled call with \<open>base \<ge> 2\<close>, one permutation of
  \<open>{0, \<dots>, base - 1}\<close> is drawn from the generator for each digit position (each pass of
  the loop, the generator moving on from pass to pass), and the permutation of a pass is
  applied to that digit of every one of the \<open>n\<close> points: the result is, point by point,
  the digits of the point under the one list of drawn permutations.
\<close>

theorem van_der_corput_scramble_per_digit:
  assumes "2 \<le> b"
  shows "van_der_corput default_rng n b start_index True sd
           = Some (Inr (map (\<lambda>i. point_digits b
                                   (fst (drawn_perms b (check_random_state default_rng sd)
                                           (1 / real_of_int b)))
                                   0 (real_of_int (start_index + int i)) (1 / real_of_int b))
                          [0..<n],
                        snd (drawn_perms b (check_random_state default_rng sd)
                               (1 / real_of_int b))))
       \<and> (\<forall>p \<in> set (fst (drawn_perms b (check_random_state default_rng sd) (1 / real_of_int b))).
             distinct p \<and> set p = {0..<nat b})"
proof -
  let ?g = "check_random_state default_rng sd"
  let ?q = "map (\<lambda>i. real_of_int (start_index + int i)) [0..<n]"
  have "vdc_loop b True ?g (replicate n 0) ?q (1 / real_of_int b)
          = (map2 (\<lambda>s q. point_digits b (fst (drawn_perms b ?g (1 / real_of_int b))) s q
                             (1 / real_of_int b)) (replicate n 0) ?q,
             snd (drawn_perms b ?g (1 / real_of_int b)))"
    by (rule vdc_loop_pointwise) simp
  moreover have "map2 (\<lambda>s q. point_digits b (fst (drawn_perms b ?g (1 / real_of_int b))) s q
                             (1 / real_of_int b)) (replicate n 0) ?q
        = map (\<lambda>i. point_digits b (fst (drawn_perms b ?g (1 / real_of_int b)))
                       0 (real_of_int (start_index + int i)) (1 / real_of_int b)) [0..<n]"
    by (intro nth_equalityI) simp_all
  ultimately show ?thesis
    using assms drawn_perms_are_permutations[of _ b ?g "1 / real_of_int b"]
    by (simp add: van_der_corput_def Let_def)
qed


theorem van_der_corput_scramble_per_digit_witness:
  "(2::int) \<le> 2
   \<and> van_der_corput (\<lambda>u. tape_id) 1 2 0 True SeedNone
       = Some (Inr (map (\<lambda>i. point_digits 2
                                   (fst (drawn_perms 2 (check_random_state (\<lambda>u. tape_id) SeedNone)
                                           (1 / real_of_int 2)))
                                   0 (real_of_int (0 + int i)) (1 / real_of_int 2))
                          [0..<1],
                        snd (drawn_perms 2 (check_random_state (\<lambda>u. tape_id) SeedNone)
                               (1 / real_of_int 2))))"
proof -
  have h: "(2::int) \<le> 2" by simp
  from van_der_corput_scramble_per_digit[OF h, of "\<lambda>u. tape_id" 1 0 SeedNone] h
  show ?thesis by blast
qed

lemma drawn_perms_two_pos:
  "k \<le> 53 \<Longrightarrow> pos (snd (drawn_perms 2 g (1 / 2 ^ (54 - k)))) = pos g + k"
proof (induction k arbitrary: g)
  case 0
  show ?case by (subst drawn_perms.simps) simp
next
  case (Suc k)
  have e: "54 - k = Suc (54 - Suc k)" using Suc.prems by simp
  have "(2::real) ^ (54 - Suc k) < 2 ^ 54"
    by (rule power_strict_increasing) simp_all
  then have lt: "(1::real) / 2 ^ 54 < 1 / 2 ^ (54 - Suc k)"
    by (simp add: field_simps)
  have half: "(1::real) / 2 ^ (54 - Suc k) / real_of_int 2 = 1 / 2 ^ (54 - k)"
    unfolding e by simp
  have "drawn_perms 2 g (1 / 2 ^ (54 - Suc k))
          = (fst (permutation g (nat 2))
               # fst (drawn_perms 2 (snd (permutation g (nat 2))) (1 / 2 ^ (54 - k))),
             snd (drawn_perms 2 (snd (permutation g (nat 2))) (1 / 2 ^ (54 - k))))"
    using lt by (subst drawn_perms.simps) (simp only: half Let_def, simp)
  then show ?case
    using Suc.IH[of "snd (permutation g (nat 2))"] Suc.prems
    by (simp add: permutation_props advance_def)
qed

text \<open>
  C3 as stated fails: not one permutation is drawn, but one for each digit position.
  For base two a permutation costs the generator one word; the call for one point moves
  the generator by 53 words, one for each of the 53 passes, and on the tape
  \<open>0, 1, 2, \<dots>\<close> the permutations of the first two digit positions are the exchange and
  the identity.
\<close>

theorem van_der_corput_single_permutation_counterexample:
  "pos (snd (permutation tape_id 2)) = 1
   \<and> (\<exists>s g. van_der_corput (\<lambda>u. tape_id) 1 2 0 True SeedNone = Some (Inr (s, g)) \<and> pos g = 53)
   \<and> take 2 (fst (drawn_perms 2 tape_id (1 / 2))) = [[1, 0], [0, 1]]"
proof -
  have a: "pos (snd (permutation tape_id 2)) = 1"
    by (simp add: permutation_props advance_def tape_id_def)
  have "vdc_loop 2 True tape_id (replicate 1 0) (map (\<lambda>i. real_of_int (0 + int i)) [0..<1])
          (1 / real_of_int 2)
        = (map2 (\<lambda>s q. point_digits 2 (fst (drawn_perms 2 tape_id (1 / real_of_int 2))) s q
                           (1 / real_of_int 2))
             (replicate 1 0) (map (\<lambda>i. real_of_int (0 + int i)) [0..<1]),
           snd (drawn_perms 2 tape_id (1 / real_of_int 2)))"
    by (rule vdc_loop_pointwise) simp
  moreover have "pos (snd (drawn_perms 2 tape_id (1 / real_of_int 2))) = 53"
    using drawn_perms_two_pos[of 53 tape_id] by (simp add: tape_id_def)
  ultimately have b: "\<exists>s g. van_der_corput (\<lambda>u. tape_id) 1 2 0 True SeedNone = Some (Inr (s, g))
                        \<and> pos g = 53"
    by (simp add: van_der_corput_def check_random_state_def Let_def)
  have p1: "fst (permutation tape_id 2) = [1, 0]"
    by (simp add: permutation_def shuffle_def swap_entries_def tape_id_def
          numeral_2_eq_2 upt_rec)
  have p2: "fst (permutation (advance tape_id (Suc 0)) 2) = [0, Suc 0]"
    by (simp add: permutation_def shuffle_def swap_entries_def tape_id_def advance_def
          numeral_2_eq_2 upt_rec)
  have c: "take 2 (fst (drawn_perms 2 tape_id (1 / 2))) = [[1, 0], [0, 1]]"
    apply (subst drawn_perms.simps)
    apply (simp add: Let_def p1 permutation_props)
    apply (subst drawn_perms.simps)
    apply (simp add: Let_def p2 permutation_props)
    done
  from a b c show ?thesis by blast
qed

subsection \<open>C2: \<^verbatim>\<open>fast_forward\<close> followed by \<^verbatim>\<open>random\<close>\<close>

lemma draw_loop_snd: "snd (draw_loop a i dm v q) = fast_forward_loop a i dm v q"
  by (induction a arbitrary: i q) (simp_all add: Let_def case_prod_unfold)

lemma draw_loop_add:
  "fst (draw_loop (a + m) i dm v q)
     = fst (draw_loop a i dm v q) @ fst (draw_loop m (i + a) dm v (fast_forward_loop a i dm v q))"
  by (induction a arbitrary: i q) (simp_all add: Let_def case_prod_unfold)

lemma draw_loop_drop:
  "drop a (fst (draw_loop (a + m) i dm v q))
     = fst (draw_loop m (i + a) dm v (fast_forward_loop a i dm v q))"
  by (simp add: draw_loop_add length_draw_loop)

lemma Sobol_fast_forward_random:
  "fst (Sobol_random (Sobol_fast_forward S n) m) = drop n (fst (Sobol_random S (n + m)))"
proof (cases "num_generated S = 0")
  case False
  then obtain c where c: "num_generated S = Suc c" by (cases "num_generated S") auto
  show ?thesis
    using draw_loop_drop[of n m c "dim S" "sv S" "quasi S"] nat_int_add[of n m]
    by (simp add: Let_def Sobol_random_def Sobol_fast_forward_def c draw_def fast_forward_def
          case_prod_unfold)
next
  case True
  show ?thesis
  proof (cases n)
    case 0
    with True show ?thesis
      by (simp add: Sobol_random_def Sobol_fast_forward_def fast_forward_def)
  next
    case (Suc k)
    have a: "fst (Sobol_random (Sobol_fast_forward S n) m)
               = fst (draw_loop m k (dim S) (sv S) (fast_forward_loop k 0 (dim S) (sv S) (quasi S)))"
      using True Suc
      by (simp add: Let_def Sobol_random_def Sobol_fast_forward_def draw_def fast_forward_def
            case_prod_unfold)
    have b: "fst (Sobol_random S (n + m))
               = take (n + m) (first_point S # fst (draw_loop (k + m) 0 (dim S) (sv S) (quasi S)))"
    proof (cases "n + m = 1")
      case True
      then have "k = 0" "m = 0" using Suc by simp_all
      with \<open>num_generated S = 0\<close> Suc show ?thesis by (simp add: Sobol_random_def)
    next
      case False
      have "nat (int (n + m) - 1) = k + m" using Suc by simp
      with False \<open>num_generated S = 0\<close> show ?thesis
        by (simp add: Let_def Sobol_random_def draw_def case_prod_unfold)
    qed
    have "drop n (take (n + m) (first_point S # fst (draw_loop (k + m) 0 (dim S) (sv S) (quasi S))))
            = drop k (fst (draw_loop (k + m) 0 (dim S) (sv S) (quasi S)))"
      using Suc length_draw_loop[of "k + m" 0 "dim S" "sv S" "quasi S"] by simp
    with a b draw_loop_drop[of k m 0 "dim S" "sv S" "quasi S"] show ?thesis by simp
  qed
qed


lemma vdc_loop_single:
  assumes "length sequence = length quotients"
  shows "fst (vdc_loop b scr g sequence quotients b2r)
           = map2 (\<lambda>s q. hd (fst (vdc_loop b scr g [s] [q] b2r))) sequence quotients"
  using assms
proof (induction b scr g sequence quotients b2r rule: vdc_loop.induct)
  case (1 b scr g sequence quotients b2r)
  show ?case
  proof (cases "2 \<le> b \<and> 1 / 2 ^ 54 < b2r")
    case False
    have "\<And>s q. vdc_loop b scr g [s] [q] b2r = ([s], g)"
      using False by (subst vdc_loop.simps) auto
    moreover have "vdc_loop b scr g sequence quotients b2r = (sequence, g)"
      using False by (subst vdc_loop.simps) auto
    moreover have "map2 (\<lambda>s q. s) sequence quotients = sequence"
      using "1.prems" by (intro nth_equalityI) simp_all
    ultimately show ?thesis by simp
  next
    case True
    define perm where "perm = fst (permutation g (nat b))"
    define g' where "g' = (if scr then snd (permutation g (nat b)) else g)"
    define rem where "rem = (\<lambda>q. if scr then real (perm ! nat \<lfloor>py_mod q b\<rfloor>) else py_mod q b)"
    define sequence' where "sequence' = map2 (\<lambda>s r. s + r * b2r) sequence (map rem quotients)"
    define quotients' where
      "quotients' = map2 (\<lambda>q r. (q - r) / real_of_int b) quotients (map rem quotients)"
    have rm: "(if scr then map (\<lambda>r. real (perm ! nat \<lfloor>r\<rfloor>)) (map (\<lambda>q. py_mod q b) qs)
               else map (\<lambda>q. py_mod q b) qs) = map rem qs" for qs
      by (simp add: rem_def)
    have len: "length sequence' = length quotients'"
      using "1.prems" by (simp add: sequence'_def quotients'_def)
    have step: "vdc_loop b scr g sequence quotients b2r
                  = vdc_loop b scr g' sequence' quotients' (b2r / real_of_int b)"
      using True
      by (subst vdc_loop.simps)
         (simp only: Let_def perm_def[symmetric] rm g'_def[symmetric] sequence'_def quotients'_def,
          simp)
    have single: "vdc_loop b scr g [s] [q] b2r
                  = vdc_loop b scr g' [s + rem q * b2r] [(q - rem q) / real_of_int b]
                      (b2r / real_of_int b)" for s q
      using True
      by (subst vdc_loop.simps)
         (simp only: Let_def perm_def[symmetric] rm g'_def[symmetric] if_True, simp)
    have ih: "fst (vdc_loop b scr g' sequence' quotients' (b2r / real_of_int b))
           = map2 (\<lambda>s q. hd (fst (vdc_loop b scr g' [s] [q] (b2r / real_of_int b))))
               sequence' quotients'"
      using "1.IH"[OF True refl refl refl refl refl refl] len
      unfolding perm_def[symmetric] rm g'_def[symmetric] sequence'_def[symmetric]
        quotients'_def[symmetric]
      by simp
    have "map2 (\<lambda>s q. hd (fst (vdc_loop b scr g' [s] [q] (b2r / real_of_int b))))
               sequence' quotients'
          = map2 (\<lambda>s q. hd (fst (vdc_loop b scr g [s] [q] b2r))) sequence quotients"
      using "1.prems"
      by (intro nth_equalityI) (simp_all add: sequence'_def quotients'_def single)
    with step ih show ?thesis by simp
  qed
qed

lemma van_der_corput_points:
  assumes "b \<noteq> 0" "b \<noteq> 1"
  shows "\<exists>g'. van_der_corput dr n b start_index scr sd
           = Some (Inr (map (\<lambda>i. vdc_point b scr (check_random_state dr sd) (start_index + int i))
                          [0..<n], g'))"
proof -
  let ?g = "check_random_state dr sd"
  let ?q = "map (\<lambda>i. real_of_int (start_index + int i)) [0..<n]"
  have "fst (vdc_loop b scr ?g (replicate n 0) ?q (1 / real_of_int b))
          = map2 (\<lambda>s q. hd (fst (vdc_loop b scr ?g [s] [q] (1 / real_of_int b))))
              (replicate n 0) ?q"
    by (rule vdc_loop_single) simp
  also have "\<dots> = map (\<lambda>i. vdc_point b scr ?g (start_index + int i)) [0..<n]"
    by (intro nth_equalityI) (simp_all add: vdc_point_def)
  finally have "vdc_loop b scr ?g (replicate n 0) ?q (1 / real_of_int b)
     = (map (\<lambda>i. vdc_point b scr ?g (start_index + int i)) [0..<n],
        snd (vdc_loop b scr ?g (replicate n 0) ?q (1 / real_of_int b)))"
    by (simp add: prod_eq_iff)
  then have "\<exists>g'. vdc_loop b scr ?g (replicate n 0) ?q (1 / real_of_int b)
     = (map (\<lambda>i. vdc_point b scr ?g (start_index + int i)) [0..<n], g')"
    by (rule exI)
  then show ?thesis
    using assms by (simp add: van_der_corput_def Let_def)
qed

lemma collect_columns_points:
  assumes "\<forall>b \<in> set bs. 2 \<le> b"
  shows "collect_columns (map (\<lambda>b. van_der_corput dr n b start_index scr sd) bs)
           = Some (Inr (map (\<lambda>b. map (\<lambda>i. vdc_point b scr (check_random_state dr sd)
                                              (start_index + int i)) [0..<n]) bs))"
  using assms
proof (induction bs)
  case Nil
  show ?case by simp
next
  case (Cons b bs)
  then have "b \<noteq> 0" "b \<noteq> 1" by auto
  from van_der_corput_points[OF this, of dr n start_index scr sd]
  obtain g' where "van_der_corput dr n b start_index scr sd
           = Some (Inr (map (\<lambda>i. vdc_point b scr (check_random_state dr sd) (start_index + int i))
                          [0..<n], g'))" ..
  with Cons show ?case by simp
qed

lemma reshape_concat:
  assumes "\<forall>r \<in> set rs. length r = k"
  shows "reshape (length rs) k (concat rs) = rs"
  using assms
proof (induction rs)
  case Nil
  show ?case by (simp add: reshape_def)
next
  case (Cons r rs)
  then have lr: "length r = k" and ih: "reshape (length rs) k (concat rs) = rs" by simp_all
  have "map (\<lambda>i. take k (drop (i * k) (r @ concat rs))) [0..<Suc (length rs)]
          = take k (r @ concat rs) # map (\<lambda>i. take k (drop (Suc i * k) (r @ concat rs))) [0..<length rs]"
    by (simp only: upt_conv_Cons[OF zero_less_Suc] list.map map_Suc_upt[symmetric] map_map o_def)
       simp
  also have "\<dots> = r # map (\<lambda>i. take k (drop (i * k) (concat rs))) [0..<length rs]"
    using lr by simp
  finally show ?case using ih by (simp add: reshape_def)
qed

lemma rows_of_columns:
  "reshape n (length cols) (concat (columns_to_rows n cols)) = columns_to_rows n cols"
proof -
  have "reshape (length (columns_to_rows n cols)) (length cols) (concat (columns_to_rows n cols))
          = columns_to_rows n cols"
    by (rule reshape_concat) (auto simp: columns_to_rows_def)
  then show ?thesis by (simp add: columns_to_rows_def)
qed

lemma Halton_random_points:
  assumes "\<forall>b \<in> set (base H). 2 \<le> b" and "length (base H) = dim H"
  shows "Halton_random dr H n
           = Some (Inr \<lparr>ncols = dim H,
                        rows = columns_to_rows n
                                 (map (\<lambda>b. map (\<lambda>i. vdc_point b (scramble H)
                                                         (check_random_state dr (seed_arg H))
                                                         (int (num_generated H) + int i)) [0..<n])
                                    (base H))\<rparr>,
                   H\<lparr>num_generated := num_generated H + n\<rparr>)"
  using assms(2) rows_of_columns[of n "map (\<lambda>b. map (\<lambda>i. vdc_point b (scramble H)
                                                         (check_random_state dr (seed_arg H))
                                                         (int (num_generated H) + int i)) [0..<n])
                                    (base H)"]
  by (simp add: Halton_random_def collect_columns_points[OF assms(1)] Let_def)

lemma Halton_fast_forward_random:
  assumes "\<forall>b \<in> set (base H). 2 \<le> b" and "length (base H) = dim H"
  shows "\<exists>A B HA HB. Halton_random dr (QMCEngine_fast_forward H n) m = Some (Inr A, HA)
           \<and> Halton_random dr H (n + m) = Some (Inr B, HB)
           \<and> rows A = drop n (rows B)"
proof -
  let ?F = "QMCEngine_fast_forward H n"
  have f: "\<forall>b \<in> set (base ?F). 2 \<le> b" "length (base ?F) = dim ?F"
    using assms by (simp_all add: QMCEngine_fast_forward_def)
  have "columns_to_rows m
          (map (\<lambda>b. map (\<lambda>i. vdc_point b (scramble H) (check_random_state dr (seed_arg H))
                               (int (num_generated H + n) + int i)) [0..<m]) (base H))
      = drop n (columns_to_rows (n + m)
          (map (\<lambda>b. map (\<lambda>i. vdc_point b (scramble H) (check_random_state dr (seed_arg H))
                               (int (num_generated H) + int i)) [0..<n + m]) (base H)))"
    by (intro nth_equalityI) (simp_all add: columns_to_rows_def add.assoc)
  then show ?thesis
    unfolding Halton_random_points[OF f] Halton_random_points[OF assms]
    by (simp add: QMCEngine_fast_forward_def)
qed


text \<open>
  C2 as stated fails for the Latin hypercube engines, which inherit the
  \<^verbatim>\<open>fast_forward\<close> of the base class: it moves the cursor and nothing else, and
  \<^verbatim>\<open>random(m)\<close> stratifies by \<open>m\<close>. A centered engine of dimension one, after
  \<^verbatim>\<open>fast_forward(1)\<close>, returns for \<^verbatim>\<open>random(2)\<close> the points \<open>1/4, 1/4\<close>; the last two of
  the three points of \<^verbatim>\<open>random(3)\<close> are \<open>1/2, 1/6\<close>.
\<close>

theorem fast_forward_LatinHypercube_counterexample:
  "fst (LatinHypercube_random (QMCEngine_fast_forward lhs_centered 1) 2)
     = Inr \<lparr>ncols = 1, rows = [[1 / 4], [1 / 4]]\<rparr>
   \<and> fst (LatinHypercube_random lhs_centered (1 + 2))
     = Inr \<lparr>ncols = 1, rows = [[1 / 6], [1 / 2], [1 / 6]]\<rparr>
   \<and> drop 1 [[1 / 6], [1 / 2], [1 / 6 :: real]] \<noteq> [[1 / 4], [1 / 4]]"
  by (simp add: LatinHypercube_random_def QMCEngine_fast_forward_def lhs_centered_def
        LatinHypercube_init_def QMCEngine_init_def QMCEngine.extend_def check_random_state_def
        integers_def raw_words_def advance_def reshape_def tape_id_def
        numeral_2_eq_2 numeral_3_eq_3 upt_rec)

text \<open>
  C2, amended: for every Sobol' engine, in any state, and for every Halton engine whose
  bases are at least two and as many as its dimension (the constructor takes the first
  \<open>d\<close> primes) and whose seed, when it scrambles, is not \<^verbatim>\<open>None\<close>, and for all \<open>n\<close> and
  \<open>m\<close>: \<^verbatim>\<open>fast_forward(n)\<close> followed by \<^verbatim>\<open>random(m)\<close> returns the points of
  \<^verbatim>\<open>random(n + m)\<close> without the first \<open>n\<close>. For the Sobol' engine this rests on the
  recurrence the spec gives for \<^verbatim>\<open>_draw\<close> and \<^verbatim>\<open>_fast_forward\<close>.
\<close>

theorem fast_forward_then_random:
  "fst (Sobol_random (Sobol_fast_forward S n) m) = drop n (fst (Sobol_random S (n + m)))
   \<and> (list_all (\<lambda>b. 2 \<le> b) (base H) \<and> length (base H) = dim H
        \<and> (scramble H \<longrightarrow> seed_arg H \<noteq> SeedNone)
      \<longrightarrow> (\<exists>A B HA HB.
             Halton_random dr (QMCEngine_fast_forward H n) m = Some (Inr A, HA)
           \<and> Halton_random dr H (n + m) = Some (Inr B, HB)
           \<and> rows A = drop n (rows B)))"
  using Sobol_fast_forward_random[of S n m] Halton_fast_forward_random[of H dr n m]
  by (simp add: list_all_iff)

theorem fast_forward_then_random_witness:
  "fst (Sobol_random (Sobol_fast_forward sobol_two 1) 1)
     = drop 1 (fst (Sobol_random sobol_two (1 + 1)))
   \<and> list_all (\<lambda>b. 2 \<le> b) (base halton_two) \<and> length (base halton_two) = dim halton_two
   \<and> \<not> scramble halton_two
   \<and> (\<exists>A B HA HB.
             Halton_random (\<lambda>u. tape_id) (QMCEngine_fast_forward halton_two 1) 1 = Some (Inr A, HA)
           \<and> Halton_random (\<lambda>u. tape_id) halton_two (1 + 1) = Some (Inr B, HB)
           \<and> rows A = drop 1 (rows B))"
proof -
  have h: "list_all (\<lambda>b. 2 \<le> b) (base halton_two)" "length (base halton_two) = dim halton_two"
    "\<not> scramble halton_two"
    by (simp_all add: halton_two_def)
  from fast_forward_then_random[of sobol_two 1 1 halton_two "\<lambda>u. tape_id"] h
  show ?thesis by blast
qed

subsection \<open>C8: the best discrepancy of the optimal design never increases\<close>

lemma run_method_invariant:
  assumes step: "\<And>E x. P E \<Longrightarrow> P (snd (perturb_best_doe E x))"
    and gen: "\<And>E g. P E \<Longrightarrow> P (E\<lparr>rng := g\<rparr>)"
  shows "P E \<Longrightarrow> P (snd (run_method r E))"
proof (induction r arbitrary: E)
  case (Finished g)
  then show ?case by (simp add: gen)
next
  case (Evaluate x k)
  obtain res E' where p: "perturb_best_doe E x = (res, E')" by (cases "perturb_best_doe E x")
  then have PE': "P E'" using step[OF Evaluate.prems, of x] by simp
  show ?case
  proof (cases res)
    case (Inl e)
    with p PE' show ?thesis by simp
  next
    case (Inr v)
    have "P (snd (run_method (k v) E'))"
      by (rule Evaluate.IH[OF _ PE']) (rule rangeI)
    with p Inr show ?thesis by simp
  qed
qed

lemma optimize_invariant:
  assumes step: "\<And>E x. P E \<Longrightarrow> P (snd (perturb_best_doe E x))"
    and gen: "\<And>E g. P E \<Longrightarrow> P (E\<lparr>rng := g\<rparr>)"
  shows "P E \<Longrightarrow> P (snd (optimize k x0 bnds E))"
proof (induction k arbitrary: E)
  case 0
  then show ?case by simp
next
  case (Suc k)
  obtain res E' where r: "run_method (opt_method E x0 bnds (rng E)) E = (res, E')"
    by (cases "run_method (opt_method E x0 bnds (rng E)) E")
  have PE': "P E'"
    using run_method_invariant[of P E "opt_method E x0 bnds (rng E)", OF step gen Suc.prems] r by simp
  show ?case
  proof (cases res)
    case None
    with r Suc.IH[OF PE'] show ?thesis by simp
  next
    case (Some e)
    with r PE' show ?thesis by simp
  qed
qed

lemma disc_le_refl: "disc_le x x"
  by (simp add: disc_le_def split: option.splits)

lemma disc_le_trans: "disc_le x y \<Longrightarrow> disc_le y z \<Longrightarrow> disc_le x z"
  by (auto simp: disc_le_def split: option.splits)

lemma perturb_best_doe_commit:
  "snd (perturb_best_doe E x) = E
   \<or> (\<exists>b c. best_disc E = Some b \<and> fst (perturb_best_doe E x) = Inr (Some c) \<and> c < b
            \<and> best_disc (snd (perturb_best_doe E x)) = Some c)"
  by (auto simp: perturb_best_doe_def split: option.splits list.splits sum.splits)

lemma perturb_best_doe_mono:
  "disc_le (best_disc (snd (perturb_best_doe E x))) (best_disc E)"
  using perturb_best_doe_commit[of E x]
  by (auto simp: disc_le_def split: option.splits)

lemma optimize_mono:
  "disc_le (best_disc (snd (optimize k x0 bnds E))) (best_disc E)"
proof -
  have "disc_le (best_disc (snd (optimize k x0 bnds E))) (best_disc E)"
  proof (rule optimize_invariant[where P = "\<lambda>F. disc_le (best_disc F) (best_disc E)"])
    fix F :: OptimalDesign and x assume "disc_le (best_disc F) (best_disc E)"
    with perturb_best_doe_mono[of F x]
    show "disc_le (best_disc (snd (perturb_best_doe F x))) (best_disc E)"
      by (rule disc_le_trans)
  next
    fix F :: OptimalDesign and g assume "disc_le (best_disc F) (best_disc E)"
    then show "disc_le (best_disc (F\<lparr>rng := g\<rparr>)) (best_disc E)" by simp
  next
    show "disc_le (best_disc E) (best_disc E)" by (rule disc_le_refl)
  qed
  then show ?thesis .
qed

lemma OptimalDesign_random_after_initial:
  assumes "dim E \<noteq> 0" "initial_design E n = (None, E1)"
  shows "disc_le (best_disc (snd (OptimalDesign_random E n))) (best_disc E1)"
proof -
  let ?b = "[(0, int (dim E1) - 1), (0, int n - 1), (0, int n - 1)]"
  obtain res E2 where o: "optimize (niter E1) [0, 0, 0] ?b E1 = (res, E2)"
    by (cases "optimize (niter E1) [0, 0, 0] ?b E1")
  have "disc_le (best_disc E2) (best_disc E1)"
    using optimize_mono[of "niter E1" "[0, 0, 0]" ?b E1] o by simp
  then show ?thesis
    using assms o by (cases res) (simp_all add: OptimalDesign_random_def Let_def)
qed

lemma initial_design_disc:
  assumes "initial_design E n = (None, E1)"
    and "best_doe E = None \<or> (\<exists>doe c. best_doe E = Some doe \<and> best_disc E = Some c
            \<and> discrepancy doe False ''CD'' = Inr c)"
  shows "\<exists>doe c. best_doe E1 = Some doe \<and> best_disc E1 = Some c
            \<and> discrepancy doe False ''CD'' = Inr c"
  using assms
  by (auto simp: initial_design_def Let_def split: option.splits prod.splits sum.splits)

text \<open>
  C8: every call of the objective leaves \<open>best_disc\<close> as it is or lowers it, and it
  changes the design only when the candidate is strictly below \<open>best_disc\<close>, which then
  becomes the candidate. For an engine as constructed, of dimension at least one, a call
  of \<^verbatim>\<open>random(n)\<close> either raises while the initial design is drawn (\<open>n = 0\<close>), or it
  ends with a \<open>best_disc\<close> that is at most the centered discrepancy of the initial design
  (the start design, or the design drawn from \<^verbatim>\<open>olhs\<close>), also when the optimizer
  raises on the way.
\<close>

theorem OptimalDesign_best_disc_never_increases:
  assumes "OptimalDesign_init dr bh dm start nit meth sd = Inr E" and "1 \<le> dm"
  shows "(\<forall>F x. disc_le (best_disc (snd (perturb_best_doe F x))) (best_disc F)
               \<and> (snd (perturb_best_doe F x) = F
                  \<or> (\<exists>b c. best_disc F = Some b \<and> fst (perturb_best_doe F x) = Inr (Some c)
                           \<and> c < b \<and> best_disc (snd (perturb_best_doe F x)) = Some c)))
       \<and> (case initial_design E n of
             (Some e, E1) \<Rightarrow> fst (OptimalDesign_random E n) = Inl e
           | (None, E1) \<Rightarrow>
               (\<exists>doe c0 c. best_doe E1 = Some doe \<and> discrepancy doe False ''CD'' = Inr c0
                   \<and> best_disc E1 = Some c0
                   \<and> best_disc (snd (OptimalDesign_random E n)) = Some c \<and> c \<le> c0))"
proof (intro conjI allI)
  fix F x
  show "disc_le (best_disc (snd (perturb_best_doe F x))) (best_disc F)"
    by (rule perturb_best_doe_mono)
  show "snd (perturb_best_doe F x) = F
        \<or> (\<exists>b c. best_disc F = Some b \<and> fst (perturb_best_doe F x) = Inr (Some c)
                 \<and> c < b \<and> best_disc (snd (perturb_best_doe F x)) = Some c)"
    by (rule perturb_best_doe_commit)
next
  have d: "dim E \<noteq> 0" and
    st: "best_doe E = None \<or> (\<exists>doe c. best_doe E = Some doe \<and> best_disc E = Some c
            \<and> discrepancy doe False ''CD'' = Inr c)"
    using assms
    by (auto simp: OptimalDesign_init_def Let_def QMCEngine_init_def QMCEngine.extend_def
          split: option.splits sum.splits)
  obtain r E1 where i: "initial_design E n = (r, E1)" by (cases "initial_design E n")
  show "case initial_design E n of
          (Some e, E1) \<Rightarrow> fst (OptimalDesign_random E n) = Inl e
        | (None, E1) \<Rightarrow>
            (\<exists>doe c0 c. best_doe E1 = Some doe \<and> discrepancy doe False ''CD'' = Inr c0
                \<and> best_disc E1 = Some c0
                \<and> best_disc (snd (OptimalDesign_random E n)) = Some c \<and> c \<le> c0)"
  proof (cases r)
    case (Some e)
    with i d show ?thesis by (simp add: OptimalDesign_random_def)
  next
    case None
    with i have i': "initial_design E n = (None, E1)" by simp
    from initial_design_disc[OF i' st] obtain doe c0 where
      a: "best_doe E1 = Some doe" "best_disc E1 = Some c0" "discrepancy doe False ''CD'' = Inr c0"
      by blast
    from OptimalDesign_random_after_initial[OF d i'] a(2)
    obtain c where "best_disc (snd (OptimalDesign_random E n)) = Some c" "c \<le> c0"
      by (auto simp: disc_le_def split: option.splits)
    with a i' show ?thesis by auto
  qed
qed


theorem OptimalDesign_best_disc_never_increases_witness:
  "\<exists>E. OptimalDesign_init (\<lambda>u. tape_id) opt_once 1 (Some design_pair) 1 None SeedNone = Inr E
      \<and> (1::nat) \<le> 1
      \<and> (\<exists>doe c0 c. best_doe E = Some doe \<and> discrepancy doe False ''CD'' = Inr c0
             \<and> best_disc E = Some c0
             \<and> best_disc (snd (OptimalDesign_random E 2)) = Some c \<and> c \<le> c0)"
proof -
  obtain c where c: "discrepancy design_pair False ''CD'' = Inr c"
    by (simp add: discrepancy_def design_pair_def Let_def)
  define E where "E = QMCEngine.extend (QMCEngine_init (\<lambda>u. tape_id) 1 SeedNone)
                    \<lparr>start_design = Some design_pair, niter = 1, opt_method = opt_once,
                     best_doe = Some design_pair, best_disc = Some c,
                     olhs = OrthogonalLatinHypercube_init (\<lambda>u. tape_id) 1
                              (SeedGenerator (rng (QMCEngine_init (\<lambda>u. tape_id) 1 SeedNone)))\<rparr>"
  have init: "OptimalDesign_init (\<lambda>u. tape_id) opt_once 1 (Some design_pair) 1 None SeedNone = Inr E"
    by (simp add: OptimalDesign_init_def Let_def c E_def)
  have le: "(1::nat) \<le> 1" by simp
  have i: "initial_design E 2 = (None, E)"
    by (simp add: initial_design_def E_def QMCEngine.extend_def QMCEngine_init_def)
  from OptimalDesign_best_disc_never_increases[OF init le, of 2]
  have "\<exists>doe c0 c. best_doe E = Some doe \<and> discrepancy doe False ''CD'' = Inr c0
             \<and> best_disc E = Some c0
             \<and> best_disc (snd (OptimalDesign_random E 2)) = Some c \<and> c \<le> c0"
    by (simp add: i)
  with init le show ?thesis by blast
qed

subsection \<open>C5: \<^verbatim>\<open>reset\<close> of the optimal design\<close>

lemma olhs_draw_pair:
  assumes "dim E = 1" "rng E = tape_id"
  shows "OrthogonalLatinHypercube_random E 2
     = (Inr drawn_pair, E\<lparr>rng := advance tape_id 3, num_generated := num_generated E + 2\<rparr>)"
  using assms
  by (simp add: OrthogonalLatinHypercube_random_def uniform_def random_sample_def raw_words_def
        shuffle_def swap_entries_def advance_def tape_id_def reshape_def columns_to_rows_def
        drawn_pair_def Let_def numeral_2_eq_2 upt_rec)

lemma swap_cells_pair:
  assumes "doe = drawn_pair \<or> doe = drawn_pair_swapped"
  shows "swap_cells doe i j k = drawn_pair \<or> swap_cells doe i j k = drawn_pair_swapped"
proof -
  define r1 where "r1 = np_index (length (rows doe)) i"
  define r2 where "r2 = np_index (length (rows doe)) j"
  define kc where "kc = np_index (ncols doe) k"
  have l: "length (rows doe) = 2" "ncols doe = 1"
    using assms by (auto simp: drawn_pair_def drawn_pair_swapped_def)
  have c1: "r1 = Inl IndexError \<or> r1 = Inr 0 \<or> r1 = Inr 1"
    unfolding r1_def l by (auto simp: np_index_def)
  have c2: "r2 = Inl IndexError \<or> r2 = Inr 0 \<or> r2 = Inr 1"
    unfolding r2_def l by (auto simp: np_index_def)
  have c3: "kc = Inl IndexError \<or> kc = Inr 0"
    unfolding kc_def l by (auto simp: np_index_def)
  show ?thesis
    using assms c1 c2 c3
    unfolding swap_cells_def r1_def[symmetric] r2_def[symmetric] kc_def[symmetric]
    by (auto simp: drawn_pair_def drawn_pair_swapped_def Let_def)
qed


lemma perturb_best_doe_pair:
  assumes "best_doe F = Some drawn_pair \<or> best_doe F = Some drawn_pair_swapped"
  shows "best_doe (snd (perturb_best_doe F x)) = Some drawn_pair
       \<or> best_doe (snd (perturb_best_doe F x)) = Some drawn_pair_swapped"
proof -
  from assms obtain doe where d: "best_doe F = Some doe"
    "doe = drawn_pair \<or> doe = drawn_pair_swapped" by auto
  have "best_doe (snd (perturb_best_doe F x)) = Some doe
        \<or> (\<exists>i j k. best_doe (snd (perturb_best_doe F x)) = Some (swap_cells doe i j k))"
    using d(1)
    by (auto simp: perturb_best_doe_def split: option.splits list.splits sum.splits)
  with d(2) swap_cells_pair[OF d(2)] show ?thesis by metis
qed

lemma design_pair_not_drawn:
  "design_pair \<noteq> drawn_pair" "design_pair \<noteq> drawn_pair_swapped"
  by (simp_all add: design_pair_def drawn_pair_def drawn_pair_swapped_def)

lemma discrepancy_pair_returns:
  "\<exists>c. discrepancy design_pair False ''CD'' = Inr c"
  "\<exists>c. discrepancy drawn_pair False ''CD'' = Inr c"
  by (simp_all add: discrepancy_def design_pair_def drawn_pair_def Let_def)

text \<open>
  C5 at a failing input. \<^verbatim>\<open>OptimalDesign.reset\<close> calls the constructor with the
  dimension and the seed only, so the start design, the number of iterations and the
  optimizer fall back to their defaults. An engine built on the start design
  \<open>{1/4, 3/4}\<close> with \<open>niter = 0\<close> returns that design; after \<^verbatim>\<open>reset()\<close> the same call
  draws a design from \<^verbatim>\<open>olhs\<close> and runs the default optimizer once, and whatever the
  optimizer does the result is not the start design.
\<close>

theorem OptimalDesign_reset_changes_draws:
  "(case OptimalDesign_init (\<lambda>u. tape_id) bh 1 (Some design_pair) 0 None (SeedInt 0) of
      Inl e \<Rightarrow> False
    | Inr E \<Rightarrow>
        start_design E = Some design_pair \<and> niter E = 0
        \<and> fst (OptimalDesign_random E 2) = Inr (Some design_pair)
        \<and> (case OptimalDesign_reset (\<lambda>u. tape_id) bh (snd (OptimalDesign_random E 2)) of
             Inl e \<Rightarrow> False
           | Inr E' \<Rightarrow>
               start_design E' = None \<and> niter E' = 1 \<and> best_doe E' = None
               \<and> fst (OptimalDesign_random E' 2) \<noteq> Inr (Some design_pair)))"
proof -
  from discrepancy_pair_returns(1) obtain c where c: "discrepancy design_pair False ''CD'' = Inr c" ..
  define E where "E = QMCEngine.extend (QMCEngine_init (\<lambda>u. tape_id) 1 (SeedInt 0))
                    \<lparr>start_design = Some design_pair, niter = 0, opt_method = bh,
                     best_doe = Some design_pair, best_disc = Some c,
                     olhs = OrthogonalLatinHypercube_init (\<lambda>u. tape_id) 1
                              (SeedGenerator (rng (QMCEngine_init (\<lambda>u. tape_id) 1 (SeedInt 0))))\<rparr>"
  have init: "OptimalDesign_init (\<lambda>u. tape_id) bh 1 (Some design_pair) 0 None (SeedInt 0) = Inr E"
    by (simp add: OptimalDesign_init_def Let_def c E_def)
  have Ef: "dim E = 1" "start_design E = Some design_pair" "niter E = 0"
    "best_doe E = Some design_pair" "rng_seed E = SeedInt 0"
    by (simp_all add: E_def QMCEngine.extend_def QMCEngine_init_def)
  have r1: "OptimalDesign_random E 2 = (Inr (Some design_pair), E\<lparr>num_generated := num_generated E + 2\<rparr>)"
    using Ef by (simp add: OptimalDesign_random_def initial_design_def Let_def)
  define E' where "E' = (QMCEngine.extend (QMCEngine_init (\<lambda>u. tape_id) 1 (SeedInt 0))
                    \<lparr>start_design = None, niter = 1, opt_method = bh,
                     best_doe = None, best_disc = None,
                     olhs = OrthogonalLatinHypercube_init (\<lambda>u. tape_id) 1
                              (SeedGenerator (rng (QMCEngine_init (\<lambda>u. tape_id) 1 (SeedInt 0))))\<rparr>)
                   \<lparr>num_generated := 0\<rparr>"
  have reset: "OptimalDesign_reset (\<lambda>u. tape_id) bh (snd (OptimalDesign_random E 2)) = Inr E'"
    using Ef by (simp add: r1 OptimalDesign_reset_def OptimalDesign_init_def Let_def E'_def)
  have E'f: "dim E' = 1" "start_design E' = None" "niter E' = 1" "best_doe E' = None"
    "rng E' = tape_id" "dim (olhs E') = 1"
    by (simp_all add: E'_def QMCEngine.extend_def QMCEngine_init_def check_random_state_def
          OrthogonalLatinHypercube_init_def)
  from discrepancy_pair_returns(2) obtain c0 where c0: "discrepancy drawn_pair False ''CD'' = Inr c0" ..
  define E1 where "E1 = E'\<lparr>rng := advance tape_id 3,
                      olhs := (olhs E')\<lparr>rng := advance tape_id 3,
                                         num_generated := num_generated (olhs E') + 2\<rparr>,
                      best_doe := Some drawn_pair, best_disc := Some c0\<rparr>"
  have o: "OrthogonalLatinHypercube_random ((olhs E')\<lparr>rng := rng E'\<rparr>) 2
             = (Inr drawn_pair, (olhs E')\<lparr>rng := advance tape_id 3,
                                         num_generated := num_generated (olhs E') + 2\<rparr>)"
    using olhs_draw_pair[of "(olhs E')\<lparr>rng := rng E'\<rparr>"] E'f by simp
  have i: "initial_design E' 2 = (None, E1)"
    using E'f(4) by (simp add: initial_design_def o c0 Let_def E1_def)
  let ?P = "\<lambda>F::OptimalDesign. best_doe F = Some drawn_pair \<or> best_doe F = Some drawn_pair_swapped"
  let ?b = "[(0, int (dim E1) - 1), (0, int 2 - 1), (0, int 2 - 1)]"
  have P1: "?P E1" by (simp add: E1_def)
  have P2: "?P (snd (optimize (niter E1) [0, 0, 0] ?b E1))"
    by (rule optimize_invariant[where P = ?P, OF _ _ P1]) (simp_all add: perturb_best_doe_pair)
  obtain res E2 where op: "optimize (niter E1) [0, 0, 0] ?b E1 = (res, E2)"
    by (cases "optimize (niter E1) [0, 0, 0] ?b E1")
  with P2 have P3: "?P E2" by simp
  have "fst (OptimalDesign_random E' 2) \<noteq> Inr (Some design_pair)"
  proof (cases res)
    case (Some e)
    with E'f(1) i op show ?thesis by (simp add: OptimalDesign_random_def Let_def)
  next
    case None
    with E'f(1) i op have "fst (OptimalDesign_random E' 2) = Inr (best_doe E2)"
      by (simp add: OptimalDesign_random_def Let_def)
    with P3 design_pair_not_drawn show ?thesis by auto
  qed
  with init reset r1 Ef E'f show ?thesis by simp
qed

subsection \<open>C6: calls of \<^verbatim>\<open>random\<close> that leave the cursor\<close>

lemma OptimalDesign_random_dim_zero:
  "dim E = 0 \<Longrightarrow> OptimalDesign_random E n = (Inr (Some \<lparr>ncols = 0, rows = replicate n []\<rparr>), E)"
  by (simp add: OptimalDesign_random_def)

lemma MultivariateNormalQMC_random_cursor:
  assumes "MultivariateNormalQMC_random ppf engine_random M n = Some (res, M')"
  shows "num_generated M' = num_generated M"
  using assms
  by (auto simp: MultivariateNormalQMC_random_def split: option.splits sum.splits prod.splits)

text \<open>
  C6 does not hold of the code. \<^verbatim>\<open>MultivariateNormalQMC.random(n)\<close> draws from its base
  engine and never assigns its own \<^verbatim>\<open>num_generated\<close>: whatever the base engine, the
  state, \<open>n\<close> and the outcome of the call, the cursor of the sampler after the call is the
  one before it. And \<^verbatim>\<open>OptimalDesign.random(n)\<close> with \<open>d = 0\<close> returns its empty block of
  \<open>n\<close> rows before the statement that moves the cursor: the engine after the call is the
  engine before it.
\<close>

theorem random_leaves_cursor:
  "(\<forall>res M'. MultivariateNormalQMC_random ppf engine_random M n = Some (res, M')
        \<longrightarrow> num_generated M' = num_generated M)
   \<and> (dim D = 0
        \<longrightarrow> OptimalDesign_random D n = (Inr (Some \<lparr>ncols = 0, rows = replicate n []\<rparr>), D))"
  using MultivariateNormalQMC_random_cursor[of ppf engine_random M n]
    OptimalDesign_random_dim_zero[of D n]
  by blast

theorem random_leaves_cursor_witness:
  "(\<exists>res M'. MultivariateNormalQMC_random (\<lambda>u. u) Sobol_engine_random mvn_two 1 = Some (Inr res, M')
        \<and> num_generated mvn_two = 0 \<and> num_generated M' = 0)
   \<and> (\<exists>D. OptimalDesign_init (\<lambda>u. tape_id) opt_once 0 None 1 None SeedNone = Inr D
        \<and> dim D = 0 \<and> num_generated D = 0
        \<and> OptimalDesign_random D 3 = (Inr (Some \<lparr>ncols = 0, rows = [[], [], []]\<rparr>), D))"
proof -
  have sd: "dim sobol_two = 2" by (simp add: sobol_two_def)
  have z: "num_generated mvn_two = 0"
    by (simp add: mvn_two_def QMCEngine_init_def QMCEngine.extend_def)
  obtain r M' where m: "MultivariateNormalQMC_random (\<lambda>u. u) Sobol_engine_random mvn_two 1
                          = Some (Inr r, M')"
    by (simp add: MultivariateNormalQMC_random_def Sobol_engine_random_def normal_transform_def
          correlate_def add_vector_def np_broadcast_def mvn_two_def QMCEngine.extend_def
          QMCEngine_init_def length_Sobol_random sd split: prod.splits)
  define D0 where "D0 = QMCEngine.extend (QMCEngine_init (\<lambda>u. tape_id) 0 SeedNone)
                    \<lparr>start_design = None, niter = 1, opt_method = opt_once,
                     best_doe = None, best_disc = None,
                     olhs = OrthogonalLatinHypercube_init (\<lambda>u. tape_id) 0
                              (SeedGenerator (rng (QMCEngine_init (\<lambda>u. tape_id) 0 SeedNone)))\<rparr>"
  have init0: "OptimalDesign_init (\<lambda>u. tape_id) opt_once 0 None 1 None SeedNone = Inr D0"
    by (simp add: OptimalDesign_init_def Let_def D0_def)
  have D0f: "dim D0 = 0" "num_generated D0 = 0"
    by (simp_all add: D0_def QMCEngine.extend_def QMCEngine_init_def)
  note A = random_leaves_cursor[of "\<lambda>u. u" Sobol_engine_random mvn_two 1 D0]
  note B = random_leaves_cursor[of "\<lambda>u. u" Sobol_engine_random mvn_two 3 D0]
  have c1: "num_generated M' = 0" using A m z by simp
  have c2: "OptimalDesign_random D0 3 = (Inr (Some \<lparr>ncols = 0, rows = [[], [], []]\<rparr>), D0)"
    using B D0f by (simp add: numeral_3_eq_3)
  show ?thesis using c1 c2 m z init0 D0f by blast
qed

end
